theory Spec2Isabelle
  imports Main "HOL-Library.Product_Lexorder"
begin

section \<open>The contact manager of phonebook.py\<close>

text \<open>
  A shallow embedding of \<^verbatim>\<open>src/phonebook.py\<close>: the field classes with their validating
  constructors, \<^verbatim>\<open>Record\<close>, \<^verbatim>\<open>AddressBook\<close>, the handlers \<^verbatim>\<open>add_contact\<close> and
  \<^verbatim>\<open>birthdays\<close> and the decorator \<^verbatim>\<open>input_error\<close>.

  Conventions.
  \<^item> A Python \<^verbatim>\<open>str\<close> is the list of its code points (\<open>ustring\<close>), so \<^term>\<open>length\<close>
    is Python's \<^verbatim>\<open>len\<close>; \<open>ustr ''abc''\<close> is the \<^verbatim>\<open>str\<close> of an ASCII literal and \<open>cp\<close> the
    code point of a character.
  \<^item> The fixed user-facing texts of the handlers are Cyrillic; each literal is one
    constructor of the type \<open>reply\<close>.
  \<^item> An exception is a value \<open>Inl e\<close> of a sum type.
  \<^item> Mutation of an object is a returned, updated value.
\<close>

subsection \<open>Exceptions\<close>

datatype error = ValueError | KeyError | IndexError | OverflowError

subsection \<open>Strings\<close>

type_synonym ustring = "int list"

definition cp :: "char \<Rightarrow> int" where
  "cp c = of_char c"

definition ustr :: "string \<Rightarrow> ustring" where
  "ustr s = map cp s"

subsection \<open>Unicode digits\<close>

text \<open>
  The tables are those of Unicode 14.0.0, the version of the character database in
  Python 3.11.

  The decimal digits (Numeric_Type Decimal, the characters of \<^verbatim>\<open>str.isdecimal\<close>) come in
  runs: \<open>(first, n)\<close> is a run of \<open>n\<close> code points from \<open>first\<close> on, and the character at
  offset \<open>i\<close> of its run is the digit \<open>i mod 10\<close>. \<open>to_decimal c\<close> is the digit that
  \<open>c\<close> stands for, the value \<^verbatim>\<open>int\<close> gives it, and \<open>None\<close> when \<open>c\<close> is not a decimal
  digit.
\<close>

definition DECIMAL_RUNS :: "(int \<times> int) list" where
  "DECIMAL_RUNS =
     [
      (0x0030, 10), (0x0660, 10), (0x06F0, 10), (0x07C0, 10), (0x0966, 10), (0x09E6, 10),
      (0x0A66, 10), (0x0AE6, 10), (0x0B66, 10), (0x0BE6, 10), (0x0C66, 10), (0x0CE6, 10),
      (0x0D66, 10), (0x0DE6, 10), (0x0E50, 10), (0x0ED0, 10), (0x0F20, 10), (0x1040, 10),
      (0x1090, 10), (0x17E0, 10), (0x1810, 10), (0x1946, 10), (0x19D0, 10), (0x1A80, 10),
      (0x1A90, 10), (0x1B50, 10), (0x1BB0, 10), (0x1C40, 10), (0x1C50, 10), (0xA620, 10),
      (0xA8D0, 10), (0xA900, 10), (0xA9D0, 10), (0xA9F0, 10), (0xAA50, 10), (0xABF0, 10),
      (0xFF10, 10), (0x104A0, 10), (0x10D30, 10), (0x11066, 10), (0x110F0, 10), (0x11136, 10),
      (0x111D0, 10), (0x112F0, 10), (0x11450, 10), (0x114D0, 10), (0x11650, 10), (0x116C0, 10),
      (0x11730, 10), (0x118E0, 10), (0x11950, 10), (0x11C50, 10), (0x11D50, 10), (0x11DA0, 10),
      (0x16A60, 10), (0x16AC0, 10), (0x16B50, 10), (0x1D7CE, 50), (0x1E140, 10), (0x1E2F0, 10),
      (0x1E950, 10), (0x1FBF0, 10)
     ]"

definition to_decimal :: "int \<Rightarrow> nat option" where
  "to_decimal c =
     (case List.find (\<lambda>(first, n). first \<le> c \<and> c < first + n) DECIMAL_RUNS of
        None \<Rightarrow> None
      | Some (first, n) \<Rightarrow> Some (nat ((c - first) mod 10)))"

text \<open>
  \<^verbatim>\<open>c.isdigit()\<close> holds for the characters whose Numeric_Type is Decimal or Digit: the
  decimal digits and further digit characters such as the superscripts U+00B2, U+00B3 and
  U+00B9. \<open>(first, last)\<close> is a range of such code points. A string is \<^verbatim>\<open>isdigit\<close> when
  it is not empty and all its characters are.
\<close>

definition DIGIT_RANGES :: "(int \<times> int) list" where
  "DIGIT_RANGES =
     [
      (0x0030, 0x0039), (0x00B2, 0x00B3), (0x00B9, 0x00B9), (0x0660, 0x0669), (0x06F0, 0x06F9),
      (0x07C0, 0x07C9), (0x0966, 0x096F), (0x09E6, 0x09EF), (0x0A66, 0x0A6F), (0x0AE6, 0x0AEF),
      (0x0B66, 0x0B6F), (0x0BE6, 0x0BEF), (0x0C66, 0x0C6F), (0x0CE6, 0x0CEF), (0x0D66, 0x0D6F),
      (0x0DE6, 0x0DEF), (0x0E50, 0x0E59), (0x0ED0, 0x0ED9), (0x0F20, 0x0F29), (0x1040, 0x1049),
      (0x1090, 0x1099), (0x1369, 0x1371), (0x17E0, 0x17E9), (0x1810, 0x1819), (0x1946, 0x194F),
      (0x19D0, 0x19DA), (0x1A80, 0x1A89), (0x1A90, 0x1A99), (0x1B50, 0x1B59), (0x1BB0, 0x1BB9),
      (0x1C40, 0x1C49), (0x1C50, 0x1C59), (0x2070, 0x2070), (0x2074, 0x2079), (0x2080, 0x2089),
      (0x2460, 0x2468), (0x2474, 0x247C), (0x2488, 0x2490), (0x24EA, 0x24EA), (0x24F5, 0x24FD),
      (0x24FF, 0x24FF), (0x2776, 0x277E), (0x2780, 0x2788), (0x278A, 0x2792), (0xA620, 0xA629),
      (0xA8D0, 0xA8D9), (0xA900, 0xA909), (0xA9D0, 0xA9D9), (0xA9F0, 0xA9F9), (0xAA50, 0xAA59),
      (0xABF0, 0xABF9), (0xFF10, 0xFF19), (0x104A0, 0x104A9), (0x10A40, 0x10A43),
      (0x10D30, 0x10D39), (0x10E60, 0x10E68), (0x11052, 0x1105A), (0x11066, 0x1106F),
      (0x110F0, 0x110F9), (0x11136, 0x1113F), (0x111D0, 0x111D9), (0x112F0, 0x112F9),
      (0x11450, 0x11459), (0x114D0, 0x114D9), (0x11650, 0x11659), (0x116C0, 0x116C9),
      (0x11730, 0x11739), (0x118E0, 0x118E9), (0x11950, 0x11959), (0x11C50, 0x11C59),
      (0x11D50, 0x11D59), (0x11DA0, 0x11DA9), (0x16A60, 0x16A69), (0x16AC0, 0x16AC9),
      (0x16B50, 0x16B59), (0x1D7CE, 0x1D7FF), (0x1E140, 0x1E149), (0x1E2F0, 0x1E2F9),
      (0x1E950, 0x1E959), (0x1F100, 0x1F10A), (0x1FBF0, 0x1FBF9)
     ]"

definition isdigit_char :: "int \<Rightarrow> bool" where
  "isdigit_char c = list_ex (\<lambda>(first, last). first \<le> c \<and> c \<le> last) DIGIT_RANGES"

definition isdigit :: "ustring \<Rightarrow> bool" where
  "isdigit s = (s \<noteq> [] \<and> list_all isdigit_char s)"

subsection \<open>Fields\<close>

text \<open>
  \<^verbatim>\<open>Field\<close> holds one attribute \<^verbatim>\<open>value\<close>. The constructors \<open>Name\<close> and \<open>Phone\<close>
  below are the bare objects; \<open>Phone_init\<close> is \<^verbatim>\<open>Phone.__init__\<close> with its check.
\<close>

datatype Name = Name (name_value: ustring)

datatype Phone = Phone (phone_value: ustring)

definition Phone_init :: "ustring \<Rightarrow> error + Phone" where
  "Phone_init v =
     (if \<not> isdigit v \<or> length v \<noteq> 10 then Inl ValueError else Inr (Phone v))"

subsection \<open>\<^verbatim>\<open>datetime\<close>: calendar arithmetic\<close>

text \<open>
  The parts of Python's \<^verbatim>\<open>datetime\<close> module that the program calls, after the module's
  reference implementation: field checks, ordinals, comparison, adding a \<^verbatim>\<open>timedelta\<close>,
  the difference of two \<^verbatim>\<open>datetime\<close>s, \<^verbatim>\<open>replace\<close>.
\<close>

record datetime =
  year :: int
  month :: int
  day :: int
  hour :: int
  minute :: int
  second :: int
  microsecond :: int

record timedelta =
  days :: int
  seconds :: int
  microseconds :: int

definition MINYEAR :: int where "MINYEAR = 1"
definition MAXYEAR :: int where "MAXYEAR = 9999"
definition MAXORDINAL :: int where "MAXORDINAL = 3652059"

definition DAYS_IN_MONTH :: "int list" where
  "DAYS_IN_MONTH = [-1, 31, 28, 31, 30, 31, 30, 31, 31, 30, 31, 30, 31]"

definition DAYS_BEFORE_MONTH :: "int list" where
  "DAYS_BEFORE_MONTH = [-1, 0, 31, 59, 90, 120, 151, 181, 212, 243, 273, 304, 334]"

definition is_leap :: "int \<Rightarrow> bool" where
  "is_leap y = (y mod 4 = 0 \<and> (y mod 100 \<noteq> 0 \<or> y mod 400 = 0))"

definition days_before_year :: "int \<Rightarrow> int" where
  "days_before_year y = (y - 1) * 365 + (y - 1) div 4 - (y - 1) div 100 + (y - 1) div 400"

text \<open>Both are called with \<open>1 \<le> m \<le> 12\<close> only (an assertion in the module).\<close>

definition days_in_month :: "int \<Rightarrow> int \<Rightarrow> int" where
  "days_in_month y m = (if m = 2 \<and> is_leap y then 29 else DAYS_IN_MONTH ! nat m)"

definition days_before_month :: "int \<Rightarrow> int \<Rightarrow> int" where
  "days_before_month y m = DAYS_BEFORE_MONTH ! nat m + (if m > 2 \<and> is_leap y then 1 else 0)"

definition ymd2ord :: "int \<Rightarrow> int \<Rightarrow> int \<Rightarrow> int" where
  "ymd2ord y m d = days_before_year y + days_before_month y m + d"

definition ord2ymd :: "int \<Rightarrow> int \<times> int \<times> int" where
  "ord2ymd n0 =
     (let n = n0 - 1;
          n400 = n div 146097; n = n mod 146097;
          y = n400 * 400 + 1;
          n100 = n div 36524; n = n mod 36524;
          n4 = n div 1461; n = n mod 1461;
          n1 = n div 365; n = n mod 365;
          y = y + n100 * 100 + n4 * 4 + n1
      in if n1 = 4 \<or> n100 = 4 then (y - 1, 12, 31)
         else
           let leapyear = (n1 = 3 \<and> (n4 \<noteq> 24 \<or> n100 = 3));
               m = (n + 50) div 32;
               preceding = DAYS_BEFORE_MONTH ! nat m + (if m > 2 \<and> leapyear then 1 else 0)
           in if preceding > n
              then let m' = m - 1;
                       preceding' = preceding -
                         (DAYS_IN_MONTH ! nat m' + (if m' = 2 \<and> leapyear then 1 else 0))
                   in (y, m', n - preceding' + 1)
              else (y, m, n - preceding + 1))"

definition check_date_fields :: "int \<Rightarrow> int \<Rightarrow> int \<Rightarrow> bool" where
  "check_date_fields y m d =
     (MINYEAR \<le> y \<and> y \<le> MAXYEAR \<and> 1 \<le> m \<and> m \<le> 12 \<and> 1 \<le> d \<and> d \<le> days_in_month y m)"

definition check_time_fields :: "int \<Rightarrow> int \<Rightarrow> int \<Rightarrow> int \<Rightarrow> bool" where
  "check_time_fields hh mm ss us =
     (0 \<le> hh \<and> hh \<le> 23 \<and> 0 \<le> mm \<and> mm \<le> 59 \<and> 0 \<le> ss \<and> ss \<le> 59 \<and> 0 \<le> us \<and> us \<le> 999999)"

text \<open>The constructor \<^verbatim>\<open>datetime(year, month, day, hour, minute, second, microsecond)\<close>.\<close>

definition datetime_new ::
  "int \<Rightarrow> int \<Rightarrow> int \<Rightarrow> int \<Rightarrow> int \<Rightarrow> int \<Rightarrow> int \<Rightarrow> error + datetime" where
  "datetime_new y m d hh mm ss us =
     (if \<not> check_date_fields y m d then Inl ValueError
      else if \<not> check_time_fields hh mm ss us then Inl ValueError
      else Inr \<lparr>year = y, month = m, day = d, hour = hh, minute = mm, second = ss,
                microsecond = us\<rparr>)"

text \<open>\<^verbatim>\<open>dt.replace(year=y)\<close> builds a new object, with the constructor's checks.\<close>

definition replace_year :: "datetime \<Rightarrow> int \<Rightarrow> error + datetime" where
  "replace_year dt y =
     datetime_new y (month dt) (day dt) (hour dt) (minute dt) (second dt) (microsecond dt)"

definition toordinal :: "datetime \<Rightarrow> int" where
  "toordinal dt = ymd2ord (year dt) (month dt) (day dt)"

text \<open>
  Comparison of two naive \<^verbatim>\<open>datetime\<close>s compares the tuples of their fields, the year
  first.
\<close>

definition dt_key :: "datetime \<Rightarrow> int \<times> int \<times> int \<times> int \<times> int \<times> int \<times> int" where
  "dt_key dt = (year dt, month dt, day dt, hour dt, minute dt, second dt, microsecond dt)"

definition dt_le :: "datetime \<Rightarrow> datetime \<Rightarrow> bool" where
  "dt_le a b = (dt_key a \<le> dt_key b)"

definition dt_lt :: "datetime \<Rightarrow> datetime \<Rightarrow> bool" where
  "dt_lt a b = (dt_key a < dt_key b)"

text \<open>
  \<^verbatim>\<open>timedelta(days, seconds, microseconds)\<close> normalises its arguments:
  \<open>0 \<le> seconds < 86400\<close> and \<open>0 \<le> microseconds < 1000000\<close>, the carry goes to the days.
\<close>

definition timedelta_new :: "int \<Rightarrow> int \<Rightarrow> int \<Rightarrow> timedelta" where
  "timedelta_new d s us =
     (let total = (d * 86400 + s) * 1000000 + us;
          secs = total div 1000000
      in \<lparr>days = secs div 86400, seconds = secs mod 86400, microseconds = total mod 1000000\<rparr>)"

definition timedelta_add :: "timedelta \<Rightarrow> timedelta \<Rightarrow> timedelta" where
  "timedelta_add a b =
     timedelta_new (days a + days b) (seconds a + seconds b) (microseconds a + microseconds b)"

text \<open>\<^verbatim>\<open>datetime.__add__\<close>: \<^verbatim>\<open>OverflowError\<close> when the date leaves the years 1..9999.\<close>

definition dt_add :: "datetime \<Rightarrow> timedelta \<Rightarrow> error + datetime" where
  "dt_add dt other =
     (let delta = timedelta_add
            (timedelta_new (toordinal dt)
               (hour dt * 3600 + minute dt * 60 + second dt) (microsecond dt)) other;
          hh = seconds delta div 3600; rem = seconds delta mod 3600;
          mm = rem div 60; ss = rem mod 60
      in if 0 < days delta \<and> days delta \<le> MAXORDINAL
         then (case ord2ymd (days delta) of
                 (y, m, d) \<Rightarrow> Inr \<lparr>year = y, month = m, day = d, hour = hh, minute = mm,
                                   second = ss, microsecond = microseconds delta\<rparr>)
         else Inl OverflowError)"

text \<open>\<^verbatim>\<open>datetime.__sub__\<close> of two naive \<^verbatim>\<open>datetime\<close>s.\<close>

definition dt_sub :: "datetime \<Rightarrow> datetime \<Rightarrow> timedelta" where
  "dt_sub a b =
     timedelta_new (toordinal a - toordinal b)
       ((second a + minute a * 60 + hour a * 3600) - (second b + minute b * 60 + hour b * 3600))
       (microsecond a - microsecond b)"

subsection \<open>\<^verbatim>\<open>strptime\<close> and \<^verbatim>\<open>strftime\<close> for the format \<^verbatim>\<open>%d.%m.%Y\<close>\<close>

text \<open>
  \<^verbatim>\<open>datetime.strptime(value, "%d.%m.%Y")\<close> turns the format into the regular expression
  \<^verbatim>\<open>(?P<d>3[0-1]|[1-2]\d|0[1-9]|[1-9]| [1-9])\.(?P<m>1[0-2]|0[1-9]|[1-9])\.(?P<Y>\d\d\d\d)\<close>
  and matches it at the start of the string. Every alternative is a sequence of character
  classes: a literal character, a range of code points, or \<^verbatim>\<open>\d\<close>, which on a \<^verbatim>\<open>str\<close>
  matches every Unicode decimal digit. An alternative is a list of classes and a group is
  the list of its alternatives in the order written. Matching backtracks through the
  alternatives in that order: \<open>re_group\<close> returns every way a group can match, the first
  alternative first.
\<close>

datatype char_class = Lit int | Range int int | Digit

fun in_class :: "char_class \<Rightarrow> int \<Rightarrow> bool" where
  "in_class (Lit a) c = (c = a)"
| "in_class (Range lo hi) c = (lo \<le> c \<and> c \<le> hi)"
| "in_class Digit c = (to_decimal c \<noteq> None)"

definition re_lit :: "char \<Rightarrow> char_class" where
  "re_lit a = Lit (cp a)"

definition re_range :: "char \<Rightarrow> char \<Rightarrow> char_class" where
  "re_range lo hi = Range (cp lo) (cp hi)"

fun re_seq :: "char_class list \<Rightarrow> ustring \<Rightarrow> (ustring \<times> ustring) option" where
  "re_seq [] s = Some ([], s)"
| "re_seq (p # ps) [] = None"
| "re_seq (p # ps) (c # s) =
     (if in_class p c
      then (case re_seq ps s of None \<Rightarrow> None | Some (m, r) \<Rightarrow> Some (c # m, r))
      else None)"

definition re_group :: "char_class list list \<Rightarrow> ustring \<Rightarrow> (ustring \<times> ustring) list" where
  "re_group alts s = List.map_filter (\<lambda>alt. re_seq alt s) alts"

definition re_d :: "char_class list list" where
  "re_d = [[re_lit CHR ''3'', re_range CHR ''0'' CHR ''1''],
           [re_range CHR ''1'' CHR ''2'', Digit],
           [re_lit CHR ''0'', re_range CHR ''1'' CHR ''9''],
           [re_range CHR ''1'' CHR ''9''],
           [re_lit CHR '' '', re_range CHR ''1'' CHR ''9'']]"

definition re_m :: "char_class list list" where
  "re_m = [[re_lit CHR ''1'', re_range CHR ''0'' CHR ''2''],
           [re_lit CHR ''0'', re_range CHR ''1'' CHR ''9''],
           [re_range CHR ''1'' CHR ''9'']]"

definition re_Y :: "char_class list list" where
  "re_Y = [[Digit, Digit, Digit, Digit]]"

definition re_dot :: "char_class list list" where
  "re_dot = [[re_lit CHR ''.'']]"

text \<open>
  Every match of the whole expression at the start of \<open>s\<close>, in the order in which
  backtracking finds them: the groups \<open>d\<close>, \<open>m\<close>, \<open>Y\<close> and the text left after the match.
  \<^verbatim>\<open>re.match\<close> returns the first.
\<close>

definition re_matches :: "ustring \<Rightarrow> (ustring \<times> ustring \<times> ustring \<times> ustring) list" where
  "re_matches s =
     concat (map (\<lambda>(d, r1).
       concat (map (\<lambda>(dot1, r2).
         concat (map (\<lambda>(m, r3).
           concat (map (\<lambda>(dot2, r4).
             map (\<lambda>(y, r5). (d, m, y, r5)) (re_group re_Y r4))
           (re_group re_dot r3)))
         (re_group re_m r2)))
       (re_group re_dot r1)))
     (re_group re_d s))"

definition re_match :: "ustring \<Rightarrow> (ustring \<times> ustring \<times> ustring \<times> ustring) option" where
  "re_match s = (case re_matches s of [] \<Rightarrow> None | x # _ \<Rightarrow> Some x)"

text \<open>
  For reasoning about a group: \<open>re_lang alts m\<close> says that some alternative matches the
  whole of \<open>m\<close>. For the classes other than \<^verbatim>\<open>\d\<close>, \<open>class_chars\<close> lists the characters
  of a class and \<open>lang_list\<close> all the texts a group matches.
\<close>

definition re_lang :: "char_class list list \<Rightarrow> ustring \<Rightarrow> bool" where
  "re_lang alts m = list_ex (\<lambda>alt. list_all2 in_class alt m) alts"

fun class_chars :: "char_class \<Rightarrow> ustring" where
  "class_chars (Lit a) = [a]"
| "class_chars (Range lo hi) = [lo..hi]"
| "class_chars Digit = []"

definition lang_list :: "char_class list list \<Rightarrow> ustring list" where
  "lang_list alts = concat (map (\<lambda>alt. product_lists (map class_chars alt)) alts)"

text \<open>The alternatives of the group \<open>d\<close> that have no \<^verbatim>\<open>\d\<close>, and the one that has.\<close>

definition re_d_plain :: "char_class list list" where
  "re_d_plain = [[re_lit CHR ''3'', re_range CHR ''0'' CHR ''1''],
                 [re_lit CHR ''0'', re_range CHR ''1'' CHR ''9''],
                 [re_range CHR ''1'' CHR ''9''],
                 [re_lit CHR '' '', re_range CHR ''1'' CHR ''9'']]"

definition re_d_digit :: "char_class list list" where
  "re_d_digit = [[re_range CHR ''1'' CHR ''2'', Digit]]"

text \<open>
  \<^verbatim>\<open>int(s)\<close> on a matched group: a group is decimal digits, after one space in the last
  alternative of \<open>d\<close>. \<^verbatim>\<open>int\<close> skips the leading blanks and gives every decimal digit, of
  whatever script, its value.
\<close>

definition py_int :: "ustring \<Rightarrow> int" where
  "py_int s =
     foldl (\<lambda>n c. 10 * n + (case to_decimal c of Some k \<Rightarrow> int k | None \<Rightarrow> 0)) 0
       (dropWhile (\<lambda>c. c = cp CHR '' '') s)"

text \<open>
  \<^verbatim>\<open>ValueError\<close> when the expression does not match, when text remains after the match,
  and when the three numbers are not a date.
\<close>

definition strptime :: "ustring \<Rightarrow> error + datetime" where
  "strptime data_string =
     (case re_match data_string of
        None \<Rightarrow> Inl ValueError
      | Some (d, m, y, rest) \<Rightarrow>
          if rest \<noteq> [] then Inl ValueError
          else datetime_new (py_int y) (py_int m) (py_int d) 0 0 0 0)"

text \<open>
  \<^verbatim>\<open>strftime("%d.%m.%Y")\<close>: day and month with two digits. The year is left to the
  platform's C library: four digits, zero-filled, where it pads the year
  (\<open>pad_year\<close>), and the plain decimal number otherwise.
\<close>

definition digit_char :: "nat \<Rightarrow> int" where
  "digit_char k = cp CHR ''0'' + int k"

fun decimal :: "nat \<Rightarrow> ustring" where
  "decimal n = (if n < 10 then [digit_char n] else decimal (n div 10) @ [digit_char (n mod 10)])"

declare decimal.simps [simp del]

definition pad2 :: "nat \<Rightarrow> ustring" where
  "pad2 n = [digit_char (n div 10 mod 10), digit_char (n mod 10)]"

definition pad4 :: "nat \<Rightarrow> ustring" where
  "pad4 n = [digit_char (n div 1000 mod 10), digit_char (n div 100 mod 10),
             digit_char (n div 10 mod 10), digit_char (n mod 10)]"

definition strftime :: "bool \<Rightarrow> datetime \<Rightarrow> ustring" where
  "strftime pad_year dt =
     pad2 (nat (day dt)) @ ustr ''.'' @ pad2 (nat (month dt)) @ ustr ''.'' @
     (if pad_year then pad4 (nat (year dt)) else decimal (nat (year dt)))"

subsection \<open>\<^verbatim>\<open>Birthday\<close>\<close>

datatype Birthday = Birthday (birthday_value: datetime)

text \<open>Any \<^verbatim>\<open>ValueError\<close> of \<^verbatim>\<open>strptime\<close> is raised again with the program's own text.\<close>

definition Birthday_init :: "ustring \<Rightarrow> error + Birthday" where
  "Birthday_init v =
     (case strptime v of
        Inl e \<Rightarrow> Inl ValueError
      | Inr birthday_date \<Rightarrow> Inr (Birthday birthday_date))"

definition Birthday_str :: "bool \<Rightarrow> Birthday \<Rightarrow> ustring" where
  "Birthday_str pad_year b = strftime pad_year (birthday_value b)"

text \<open>
  To state what \<^verbatim>\<open>Birthday\<close> accepts. \<open>midnight y m d\<close> is the \<^verbatim>\<open>datetime\<close> of that day
  at 00:00:00 and \<open>padded_date y m d\<close> the text \<^verbatim>\<open>DD.MM.YYYY\<close> of the day in ASCII digits
  with every field zero-filled.
  \<open>day_text d t\<close>: \<open>t\<close> writes the day \<open>d\<close>, that is with two ASCII digits, or, from 10 to
  29, with the ASCII digit 1 or 2 and any decimal digit of the right value, or, below 10,
  with one ASCII digit or with a space and one ASCII digit.
  \<open>month_text m t\<close>: \<open>t\<close> writes the month \<open>m\<close> with two ASCII digits or, below 10, with
  one. \<open>year_text y t\<close>: \<open>t\<close> is four decimal digits, of any script, with the values of
  the four digits of \<open>y\<close>.
\<close>

definition midnight :: "nat \<Rightarrow> nat \<Rightarrow> nat \<Rightarrow> datetime" where
  "midnight y m d =
     \<lparr>year = int y, month = int m, day = int d, hour = 0, minute = 0, second = 0,
        microsecond = 0\<rparr>"

definition padded_date :: "nat \<Rightarrow> nat \<Rightarrow> nat \<Rightarrow> ustring" where
  "padded_date y m d = pad2 d @ ustr ''.'' @ pad2 m @ ustr ''.'' @ pad4 y"

definition day_forms :: "nat \<Rightarrow> ustring list" where
  "day_forms d =
     pad2 d # (if d < 10 then [[digit_char d], [cp CHR '' '', digit_char d]] else [])"

definition day_text :: "nat \<Rightarrow> ustring \<Rightarrow> bool" where
  "day_text d t =
     (if 10 \<le> d \<and> d \<le> 29
      then (case t of
              [c1, c2] \<Rightarrow> c1 = digit_char (d div 10) \<and> to_decimal c2 = Some (d mod 10)
            | _ \<Rightarrow> False)
      else t \<in> set (day_forms d))"

definition month_forms :: "nat \<Rightarrow> ustring list" where
  "month_forms m = pad2 m # (if m < 10 then [[digit_char m]] else [])"

definition month_text :: "nat \<Rightarrow> ustring \<Rightarrow> bool" where
  "month_text m t = (t \<in> set (month_forms m))"

definition year_text :: "nat \<Rightarrow> ustring \<Rightarrow> bool" where
  "year_text y t =
     (map to_decimal t =
        [Some (y div 1000 mod 10), Some (y div 100 mod 10), Some (y div 10 mod 10),
         Some (y mod 10)])"

subsection \<open>Record\<close>

text \<open>
  A contact: its name, the \<^verbatim>\<open>Phone\<close> objects in the order they were added, and the
  birthday, \<open>None\<close> until one is set.
\<close>

record Record =
  name :: Name
  phones :: "Phone list"
  birthday :: "Birthday option"

definition Record_init :: "ustring \<Rightarrow> Record" where
  "Record_init n = \<lparr>name = Name n, phones = [], birthday = None\<rparr>"

text \<open>\<^verbatim>\<open>self.phones.append(Phone(phone))\<close>: the constructor may raise, then nothing is appended.\<close>

definition add_phone :: "Record \<Rightarrow> ustring \<Rightarrow> error + Record" where
  "add_phone r phone =
     (case Phone_init phone of
        Inl e \<Rightarrow> Inl e
      | Inr p \<Rightarrow> Inr (r\<lparr>phones := phones r @ [p]\<rparr>))"

text \<open>\<^verbatim>\<open>self.phones = [p for p in self.phones if p.value != phone]\<close>\<close>

definition remove_phone :: "Record \<Rightarrow> ustring \<Rightarrow> Record" where
  "remove_phone r phone = r\<lparr>phones := filter (\<lambda>p. phone_value p \<noteq> phone) (phones r)\<rparr>"

text \<open>
  The loop of \<^verbatim>\<open>edit_phone\<close>: the first object whose value equals \<^verbatim>\<open>old_phone\<close> gets
  \<^verbatim>\<open>phone.value = new_phone\<close>, an attribute assignment that does not go through
  \<^verbatim>\<open>Phone.__init__\<close>; then \<^verbatim>\<open>break\<close>.
\<close>

fun edit_phone_loop :: "Phone list \<Rightarrow> ustring \<Rightarrow> ustring \<Rightarrow> Phone list" where
  "edit_phone_loop [] old_phone new_phone = []"
| "edit_phone_loop (p # ps) old_phone new_phone =
     (if phone_value p = old_phone then Phone new_phone # ps
      else p # edit_phone_loop ps old_phone new_phone)"

definition edit_phone :: "Record \<Rightarrow> ustring \<Rightarrow> ustring \<Rightarrow> Record" where
  "edit_phone r old_phone new_phone =
     r\<lparr>phones := edit_phone_loop (phones r) old_phone new_phone\<rparr>"

fun find_phone_loop :: "Phone list \<Rightarrow> ustring \<Rightarrow> ustring option" where
  "find_phone_loop [] phone = None"
| "find_phone_loop (p # ps) phone =
     (if phone_value p = phone then Some (phone_value p) else find_phone_loop ps phone)"

definition find_phone :: "Record \<Rightarrow> ustring \<Rightarrow> ustring option" where
  "find_phone r phone = find_phone_loop (phones r) phone"

text \<open>\<^verbatim>\<open>self.birthday = Birthday(date)\<close>\<close>

definition add_birthday :: "Record \<Rightarrow> ustring \<Rightarrow> error + Record" where
  "add_birthday r date =
     (case Birthday_init date of
        Inl e \<Rightarrow> Inl e
      | Inr b \<Rightarrow> Inr (r\<lparr>birthday := Some b\<rparr>))"

subsection \<open>AddressBook\<close>

text \<open>
  \<^verbatim>\<open>AddressBook\<close> is a \<^verbatim>\<open>UserDict\<close>: its \<^verbatim>\<open>data\<close> is a dict from names to records. A
  Python dict keeps its keys in insertion order, and \<^verbatim>\<open>birthdays\<close> iterates over it, so
  the dict is a list of key-value pairs: storing under a key that is present replaces the
  value where it stands, storing under a new key appends, \<^verbatim>\<open>del\<close> removes the pair.
  A dict holds a key once: \<open>wf_book\<close>.
\<close>

type_synonym AddressBook = "(ustring \<times> Record) list"

definition wf_book :: "AddressBook \<Rightarrow> bool" where
  "wf_book data = distinct (map fst data)"

fun dict_set :: "('k \<times> 'v) list \<Rightarrow> 'k \<Rightarrow> 'v \<Rightarrow> ('k \<times> 'v) list" where
  "dict_set [] k v = [(k, v)]"
| "dict_set ((k', v') # kvs) k v =
     (if k' = k then (k, v) # kvs else (k', v') # dict_set kvs k v)"

fun dict_get :: "('k \<times> 'v) list \<Rightarrow> 'k \<Rightarrow> 'v option" where
  "dict_get [] k = None"
| "dict_get ((k', v') # kvs) k = (if k' = k then Some v' else dict_get kvs k)"

fun dict_contains :: "('k \<times> 'v) list \<Rightarrow> 'k \<Rightarrow> bool" where
  "dict_contains [] k = False"
| "dict_contains ((k', v') # kvs) k = (k' = k \<or> dict_contains kvs k)"

fun dict_del :: "('k \<times> 'v) list \<Rightarrow> 'k \<Rightarrow> ('k \<times> 'v) list" where
  "dict_del [] k = []"
| "dict_del ((k', v') # kvs) k = (if k' = k then kvs else (k', v') # dict_del kvs k)"

text \<open>\<^verbatim>\<open>self.data[record.name.value] = record\<close>\<close>

definition add_record :: "AddressBook \<Rightarrow> Record \<Rightarrow> AddressBook" where
  "add_record data record = dict_set data (name_value (name record)) record"

text \<open>\<^verbatim>\<open>return self.data.get(name)\<close>\<close>

definition find_record :: "AddressBook \<Rightarrow> ustring \<Rightarrow> Record option" where
  "find_record data n = dict_get data n"

text \<open>\<^verbatim>\<open>if name in self.data: del self.data[name]\<close>\<close>

definition delete :: "AddressBook \<Rightarrow> ustring \<Rightarrow> AddressBook" where
  "delete data n = (if dict_contains data n then dict_del data n else data)"

subsection \<open>Handlers\<close>

text \<open>
  What a handler returns. The literals of the source, in English: \<open>Contact_updated\<close>
  "contact updated", \<open>Contact_added\<close> "contact added", \<open>Give_name_and_phone\<close> "please
  give a name and a phone number", \<open>Contact_not_found\<close> "contact not found",
  \<open>Wrong_usage\<close> "wrong use of the command, please try again", \<open>Failure e\<close> "error:"
  followed by the text of the exception, \<open>No_upcoming_birthdays\<close> "no upcoming
  birthdays". \<open>Upcoming ls\<close> is the lines \<open>ls\<close> joined by newlines, and
  \<open>Birthday_line n b k\<close> is the line made of the name \<open>n\<close>, a colon, the birthday \<open>b\<close>
  as \<^verbatim>\<open>str\<close> renders it and, in brackets, "in \<open>k\<close> days".
\<close>

datatype line = Birthday_line ustring Birthday int

datatype reply =
    Contact_updated
  | Contact_added
  | Give_name_and_phone
  | Contact_not_found
  | Wrong_usage
  | Failure error
  | No_upcoming_birthdays
  | Upcoming "line list"

text \<open>
  The decorator \<^verbatim>\<open>input_error\<close>: the result of the handler, or the text for the
  exception it raised.
\<close>

definition input_error :: "error + reply \<Rightarrow> reply" where
  "input_error result =
     (case result of
        Inr v \<Rightarrow> v
      | Inl ValueError \<Rightarrow> Give_name_and_phone
      | Inl KeyError \<Rightarrow> Contact_not_found
      | Inl IndexError \<Rightarrow> Wrong_usage
      | Inl e \<Rightarrow> Failure e)"

text \<open>
  \<^verbatim>\<open>add_contact\<close>. The book is mutated, so the handler returns it with the reply, also
  when an exception ends the handler: what was stored before stays stored.
  \<^verbatim>\<open>record\<close> is the object that the book holds under \<^verbatim>\<open>name\<close> (found there, or just
  stored there), so \<^verbatim>\<open>record.add_phone\<close> changes the value under that key.
  \<^verbatim>\<open>name, phone, *_ = args\<close> raises \<^verbatim>\<open>ValueError\<close> on fewer than two arguments.
\<close>

fun add_contact_body :: "ustring list \<Rightarrow> AddressBook \<Rightarrow> (error + reply) \<times> AddressBook" where
  "add_contact_body (n # phone # _) contacts =
     (let (record, contacts, message) =
            (case find_record contacts n of
               None \<Rightarrow> (Record_init n, add_record contacts (Record_init n), Contact_added)
             | Some r \<Rightarrow> (r, contacts, Contact_updated))
      in if phone \<noteq> []
         then (case add_phone record phone of
                 Inl e \<Rightarrow> (Inl e, contacts)
               | Inr record' \<Rightarrow> (Inr message, dict_set contacts n record'))
         else (Inr message, contacts))"
| "add_contact_body _ contacts = (Inl ValueError, contacts)"

definition add_contact :: "ustring list \<Rightarrow> AddressBook \<Rightarrow> reply \<times> AddressBook" where
  "add_contact args contacts =
     (case add_contact_body args contacts of (result, contacts') \<Rightarrow>
        (input_error result, contacts'))"

text \<open>
  \<^verbatim>\<open>birthdays\<close>. \<^verbatim>\<open>datetime.today()\<close> reads the clock: the current date together with
  the current time of day; it is the parameter \<open>today\<close>. The loop runs over the records
  in the order of the dict. \<^verbatim>\<open>record.birthday.value\<close> is a \<^verbatim>\<open>datetime\<close> at 00:00:00,
  as \<^verbatim>\<open>strptime\<close> made it, and \<^verbatim>\<open>.days\<close> of the difference is its \<open>days\<close> field.
\<close>

fun birthdays_loop ::
  "datetime \<Rightarrow> datetime \<Rightarrow> Record list \<Rightarrow> line list \<Rightarrow> error + line list" where
  "birthdays_loop today next_week [] upcoming_birthdays = Inr upcoming_birthdays"
| "birthdays_loop today next_week (record # records) upcoming_birthdays =
     (case birthday record of
        None \<Rightarrow> birthdays_loop today next_week records upcoming_birthdays
      | Some b \<Rightarrow>
          (case replace_year (birthday_value b) (year today) of
             Inl e \<Rightarrow> Inl e
           | Inr birthday_this_year \<Rightarrow>
               if dt_le today birthday_this_year \<and> dt_le birthday_this_year next_week
               then let days_left = days (dt_sub birthday_this_year today)
                    in birthdays_loop today next_week records
                         (upcoming_birthdays @
                            [Birthday_line (name_value (name record)) b days_left])
               else birthdays_loop today next_week records upcoming_birthdays))"

definition birthdays_body :: "ustring list \<Rightarrow> datetime \<Rightarrow> AddressBook \<Rightarrow> error + reply" where
  "birthdays_body args today contacts =
     (case dt_add today (timedelta_new 7 0 0) of
        Inl e \<Rightarrow> Inl e
      | Inr next_week \<Rightarrow>
          (case birthdays_loop today next_week (map snd contacts) [] of
             Inl e \<Rightarrow> Inl e
           | Inr upcoming_birthdays \<Rightarrow>
               Inr (if upcoming_birthdays \<noteq> [] then Upcoming upcoming_birthdays
                    else No_upcoming_birthdays)))"

definition birthdays :: "ustring list \<Rightarrow> datetime \<Rightarrow> AddressBook \<Rightarrow> reply" where
  "birthdays args today contacts = input_error (birthdays_body args today contacts)"

section \<open>Properties\<close>

subsection \<open>Strings\<close>

lemma cp_eq_iff [simp]: "cp a = cp b \<longleftrightarrow> a = b"
  by (simp add: cp_def)

lemma ustr_eq_iff [simp]: "ustr a = ustr b \<longleftrightarrow> a = b"
proof -
  have "inj cp" by (rule injI) simp
  then show ?thesis by (simp add: ustr_def inj_eq)
qed

lemma ustr_Nil_iff [simp]: "ustr a = [] \<longleftrightarrow> a = []"
  by (simp add: ustr_def)

lemma length_ustr [simp]: "length (ustr a) = length a"
  by (simp add: ustr_def)

subsection \<open>Phone numbers\<close>

lemma isdigit_char_ascii_table:
  "list_all (\<lambda>c. isdigit_char c = (c \<in> set (ustr ''0123456789''))) [0..127]"
  by code_simp

lemma isdigit_char_ascii:
  assumes "0 \<le> c" "c < 128"
  shows "isdigit_char c \<longleftrightarrow> c \<in> set (ustr ''0123456789'')"
proof -
  have "c \<in> set [0..127]" using assms by simp
  with isdigit_char_ascii_table show ?thesis
    unfolding list_all_iff by blast
qed

text \<open>
  Claim C2 says that \<^verbatim>\<open>Phone\<close> accepts exactly the strings of ten decimal digits. The
  check is \<^verbatim>\<open>value.isdigit()\<close>, which also holds for digit characters that are not decimal
  digits: the string of ten characters U+00B2 (superscript two) has length 10, none of
  its characters is one of \<open>0\<close>..\<open>9\<close> or any other decimal digit, and the constructor
  accepts it.
\<close>

theorem Phone_init_superscript_counterexample:
  "Phone_init (replicate 10 0xB2) = Inr (Phone (replicate 10 0xB2)) \<and>
   length (replicate 10 (0xB2 :: int)) = 10 \<and>
   (0xB2 :: int) \<in> set (replicate 10 0xB2) \<and>
   (0xB2 :: int) \<notin> set (ustr ''0123456789'') \<and>
   to_decimal 0xB2 = None"
  by code_simp

text \<open>
  Claim C2, amended: for every string \<open>raw\<close>, \<^verbatim>\<open>Phone(raw)\<close> succeeds exactly when \<open>raw\<close>
  has length 10 and every character is a digit in the sense of \<^verbatim>\<open>str.isdigit\<close> (Unicode
  Numeric_Type Decimal or Digit: \<open>0\<close>..\<open>9\<close>, the decimal digits of the other scripts, and
  further digit characters such as the superscripts); the stored value is then \<open>raw\<close>
  unchanged; for every other string it fails with \<^verbatim>\<open>ValueError\<close>. For a string of ASCII
  characters this is: exactly ten characters \<open>0\<close>..\<open>9\<close>.
\<close>

theorem Phone_init_accepts_ten_isdigit_characters:
  "Phone_init raw =
     (if length raw = 10 \<and> list_all isdigit_char raw then Inr (Phone raw) else Inl ValueError) \<and>
   (list_all (\<lambda>c. 0 \<le> c \<and> c < 128) raw \<longrightarrow>
      Phone_init raw =
        (if length raw = 10 \<and> set raw \<subseteq> set (ustr ''0123456789'') then Inr (Phone raw)
         else Inl ValueError))"
proof -
  have ne: "length raw = 10 \<Longrightarrow> raw \<noteq> []" by auto
  have gen: "Phone_init raw =
      (if length raw = 10 \<and> list_all isdigit_char raw then Inr (Phone raw) else Inl ValueError)"
    unfolding Phone_init_def isdigit_def using ne by auto
  have "list_all isdigit_char raw \<longleftrightarrow> set raw \<subseteq> set (ustr ''0123456789'')"
    if "list_all (\<lambda>c. 0 \<le> c \<and> c < 128) raw"
    using that isdigit_char_ascii unfolding list_all_iff by blast
  with gen show ?thesis by simp
qed

theorem Phone_init_accepts_ten_isdigit_characters_witness:
  "Phone_init (ustr ''0501234567'') = Inr (Phone (ustr ''0501234567'')) \<and>
   Phone_init (ustr ''050123456'') = Inl ValueError \<and>
   Phone_init (ustr ''05012345ab'') = Inl ValueError \<and>
   Phone_init [0x0660, 0x0661, 0x0662, 0x0663, 0x0664, 0x0665, 0x0666, 0x0667, 0x0668, 0x0669] =
     Inr (Phone [0x0660, 0x0661, 0x0662, 0x0663, 0x0664, 0x0665, 0x0666, 0x0667, 0x0668,
                 0x0669])"
proof -
  let ?arabic = "[0x0660, 0x0661, 0x0662, 0x0663, 0x0664, 0x0665, 0x0666, 0x0667, 0x0668,
      0x0669] :: ustring"
  have a: "list_all (\<lambda>c. 0 \<le> c \<and> c < 128) (ustr ''0501234567'')"
    "list_all (\<lambda>c. 0 \<le> c \<and> c < 128) (ustr ''05012345ab'')"
    by code_simp+
  have s: "set (ustr ''0501234567'') \<subseteq> set (ustr ''0123456789'')"
    "\<not> set (ustr ''05012345ab'') \<subseteq> set (ustr ''0123456789'')"
    by code_simp+
  have d: "list_all isdigit_char ?arabic" by code_simp
  have l: "length ?arabic = 10" by simp
  have 1: "Phone_init (ustr ''0501234567'') = Inr (Phone (ustr ''0501234567''))"
    unfolding Phone_init_accepts_ten_isdigit_characters
      [of "ustr ''0501234567''", THEN conjunct2, rule_format, OF a(1)]
    using s(1) by simp
  have 2: "Phone_init (ustr ''050123456'') = Inl ValueError"
    unfolding Phone_init_accepts_ten_isdigit_characters
      [of "ustr ''050123456''", THEN conjunct1]
    by simp
  have 3: "Phone_init (ustr ''05012345ab'') = Inl ValueError"
    unfolding Phone_init_accepts_ten_isdigit_characters
      [of "ustr ''05012345ab''", THEN conjunct2, rule_format, OF a(2)]
    using s(2) by simp
  have 4: "Phone_init ?arabic = Inr (Phone ?arabic)"
    unfolding Phone_init_accepts_ten_isdigit_characters [of ?arabic, THEN conjunct1]
    using d l by (simp only: simp_thms if_True)
  from 1 2 3 4 show ?thesis by blast
qed

subsection \<open>Birthday texts\<close>

lemma cp_values: "cp CHR '' '' = 32" "cp CHR ''.'' = 46" "cp CHR ''0'' = 48"
  by (simp_all add: cp_def)

lemma re_seq_sound:
  "re_seq ps s = Some (m, r) \<Longrightarrow> s = m @ r \<and> list_all2 in_class ps m"
  by (induction ps s arbitrary: m r rule: re_seq.induct)
    (auto split: if_splits option.splits)

lemma re_seq_complete:
  "list_all2 in_class ps m \<Longrightarrow> re_seq ps (m @ r) = Some (m, r)"
  by (induction ps m rule: list_all2_induct) auto

lemma re_seq_iff: "re_seq ps s = Some (m, r) \<longleftrightarrow> s = m @ r \<and> list_all2 in_class ps m"
  using re_seq_sound re_seq_complete by blast

lemma set_map_filter_iff: "y \<in> set (List.map_filter f xs) \<longleftrightarrow> (\<exists>x \<in> set xs. f x = Some y)"
  by (induction xs) (auto split: option.splits)

lemma re_group_iff: "(m, r) \<in> set (re_group alts s) \<longleftrightarrow> s = m @ r \<and> re_lang alts m"
  by (auto simp: re_group_def re_lang_def set_map_filter_iff re_seq_iff list_ex_iff)

lemma re_lang_dot: "re_lang re_dot m \<longleftrightarrow> m = ustr ''.''"
  by (auto simp: re_lang_def re_dot_def re_lit_def ustr_def list_all2_Cons1)

lemma re_matches_mem:
  "q \<in> set (re_matches s) \<longleftrightarrow>
     (\<exists>d r1 e1 r2 m r3 e2 r4 y r5.
        (d, r1) \<in> set (re_group re_d s) \<and> (e1, r2) \<in> set (re_group re_dot r1) \<and>
        (m, r3) \<in> set (re_group re_m r2) \<and> (e2, r4) \<in> set (re_group re_dot r3) \<and>
        (y, r5) \<in> set (re_group re_Y r4) \<and> q = (d, m, y, r5))"
  unfolding re_matches_def by fastforce

lemma re_matches_iff:
  "(d, m, y, r) \<in> set (re_matches s) \<longleftrightarrow>
     s = d @ ustr ''.'' @ m @ ustr ''.'' @ y @ r \<and> re_lang re_d d \<and> re_lang re_m m \<and>
     re_lang re_Y y"
  unfolding re_matches_mem re_group_iff re_lang_dot by auto

lemma in_class_chars: "cl \<noteq> Digit \<Longrightarrow> in_class cl c \<longleftrightarrow> c \<in> set (class_chars cl)"
  by (cases cl) auto

lemma list_all2_in_class_iff:
  assumes "Digit \<notin> set alt"
  shows "list_all2 in_class alt m \<longleftrightarrow> m \<in> set (product_lists (map class_chars alt))"
proof -
  have "list_all2 in_class alt m \<longleftrightarrow> list_all2 (\<lambda>c cl. c \<in> set (class_chars cl)) m alt"
    using assms in_class_chars
    by (auto simp: list_all2_conv_all_nth) (metis nth_mem)+
  then show ?thesis
    by (simp add: product_lists_set list_all2_map2)
qed

lemma re_lang_iff:
  assumes "list_all (\<lambda>alt. Digit \<notin> set alt) alts"
  shows "re_lang alts m \<longleftrightarrow> m \<in> set (lang_list alts)"
  using assms
  by (auto simp: re_lang_def lang_list_def list_ex_iff list_all_iff list_all2_in_class_iff)

lemma to_decimal_less: "to_decimal c = Some k \<Longrightarrow> k < 10"
  by (auto simp: to_decimal_def split: option.splits)

lemma to_decimal_table:
  "to_decimal 32 = None" "to_decimal 46 = None" "to_decimal 49 = Some 1" "to_decimal 50 = Some 2"
  by code_simp+

lemma to_decimal_digit_char_table:
  "list_all (\<lambda>k. to_decimal (digit_char k) = Some k) [0..<10]"
  by code_simp

lemma to_decimal_digit_char: "k < 10 \<Longrightarrow> to_decimal (digit_char k) = Some k"
  using to_decimal_digit_char_table unfolding list_all_iff by simp

lemma in_class_Digit_iff: "in_class Digit c \<longleftrightarrow> (\<exists>k<10. to_decimal c = Some k)"
  using to_decimal_less by auto

lemma py_int_digits2:
  assumes "to_decimal c1 = Some a" "to_decimal c2 = Some b"
  shows "py_int [c1, c2] = int (10 * a + b)"
proof -
  have "c1 \<noteq> 32" using assms(1) to_decimal_table(1) by auto
  then show ?thesis using assms by (simp add: py_int_def cp_values)
qed

lemma py_int_digits4:
  assumes "to_decimal c1 = Some a" "to_decimal c2 = Some b" "to_decimal c3 = Some c"
    "to_decimal c4 = Some d"
  shows "py_int [c1, c2, c3, c4] = int (1000 * a + 100 * b + 10 * c + d)"
proof -
  have "c1 \<noteq> 32" using assms(1) to_decimal_table(1) by auto
  then show ?thesis using assms by (simp add: py_int_def cp_values)
qed

lemma re_lang_d_split: "re_lang re_d m \<longleftrightarrow> re_lang re_d_digit m \<or> re_lang re_d_plain m"
  by (auto simp: re_lang_def re_d_def re_d_digit_def re_d_plain_def)

lemma day_plain_table:
  "list_all (\<lambda>m. 46 \<notin> set m \<and> 1 \<le> py_int m \<and> py_int m \<le> 31 \<and>
      day_text (nat (py_int m)) m) (lang_list re_d_plain)"
  by code_simp

lemma month_table:
  "list_all (\<lambda>m. 46 \<notin> set m \<and> 1 \<le> py_int m \<and> py_int m \<le> 12 \<and>
      month_text (nat (py_int m)) m) (lang_list re_m)"
  by code_simp

lemma no_digit_class:
  "list_all (\<lambda>alt. Digit \<notin> set alt) re_d_plain" "list_all (\<lambda>alt. Digit \<notin> set alt) re_m"
  by (simp_all add: re_d_plain_def re_m_def re_lit_def re_range_def)

lemma re_d_digit_iff:
  "re_lang re_d_digit m \<longleftrightarrow>
     (\<exists>c1 c2 k. m = [c1, c2] \<and> (c1 = 49 \<or> c1 = 50) \<and> k < 10 \<and> to_decimal c2 = Some k)"
proof -
  have "(49 \<le> c \<and> c \<le> 50) \<longleftrightarrow> (c = 49 \<or> c = 50)" for c :: int by auto
  then show ?thesis
    by (auto simp: re_lang_def re_d_digit_def re_range_def cp_def list_all2_Cons1
        dest: to_decimal_less)
qed

lemma two_digit_div_mod:
  fixes a b :: nat
  assumes "b < 10"
  shows "(10 * a + b) div 10 = a" "(10 * a + b) mod 10 = b"
  using assms by simp_all

lemma re_d_props:
  assumes "re_lang re_d m"
  shows "46 \<notin> set m \<and> 1 \<le> py_int m \<and> py_int m \<le> 31 \<and> day_text (nat (py_int m)) m"
proof -
  from assms consider "re_lang re_d_digit m" | "re_lang re_d_plain m"
    unfolding re_lang_d_split by blast
  then show ?thesis
  proof cases
    case 1
    then obtain c1 c2 k where m: "m = [c1, c2]" and c1: "c1 = 49 \<or> c1 = 50" and k: "k < 10"
      and c2: "to_decimal c2 = Some k"
      unfolding re_d_digit_iff by blast
    have ne: "c2 \<noteq> 46" using c2 to_decimal_table(2) by auto
    from c1 show ?thesis
    proof
      assume c: "c1 = 49"
      have p: "py_int m = int (10 * 1 + k)"
        unfolding m c using to_decimal_table(3) c2 by (rule py_int_digits2)
      have n: "nat (py_int m) = 10 + k" unfolding p nat_int by simp
      have "day_text (10 + k) [49, c2]"
        using k c2 two_digit_div_mod [OF k, of 1]
        by (simp add: day_text_def digit_char_def cp_values)
      then have "day_text (nat (py_int m)) m" using n by (simp add: m c)
      moreover have "1 \<le> py_int m" "py_int m \<le> 31" using k unfolding p by simp_all
      moreover have "46 \<notin> set m" using ne by (simp add: m c)
      ultimately show ?thesis by blast
    next
      assume c: "c1 = 50"
      have p: "py_int m = int (10 * 2 + k)"
        unfolding m c using to_decimal_table(4) c2 by (rule py_int_digits2)
      have n: "nat (py_int m) = 20 + k" unfolding p nat_int by simp
      have "day_text (20 + k) [50, c2]"
        using k c2 two_digit_div_mod [OF k, of 2]
        by (simp add: day_text_def digit_char_def cp_values)
      then have "day_text (nat (py_int m)) m" using n by (simp add: m c)
      moreover have "1 \<le> py_int m" "py_int m \<le> 31" using k unfolding p by simp_all
      moreover have "46 \<notin> set m" using ne by (simp add: m c)
      ultimately show ?thesis by blast
    qed
  next
    case 2
    then have "m \<in> set (lang_list re_d_plain)"
      by (simp only: re_lang_iff [OF no_digit_class(1)])
    with day_plain_table show ?thesis
      unfolding list_all_iff by blast
  qed
qed

lemma re_m_props:
  assumes "re_lang re_m m"
  shows "46 \<notin> set m \<and> 1 \<le> py_int m \<and> py_int m \<le> 12 \<and> month_text (nat (py_int m)) m"
proof -
  from assms have "m \<in> set (lang_list re_m)"
    by (simp only: re_lang_iff [OF no_digit_class(2)])
  with month_table show ?thesis
    unfolding list_all_iff by blast
qed

lemma day_forms_table:
  "list_all (\<lambda>d. list_all (\<lambda>t. re_lang re_d t \<and> py_int t = int d) (day_forms d))
     ([1..<10] @ [30, 31])"
  by code_simp

lemma month_forms_table:
  "list_all (\<lambda>m. list_all (\<lambda>t. re_lang re_m t \<and> py_int t = int m) (month_forms m)) [1..<13]"
  by code_simp

lemma day_text_props:
  assumes "1 \<le> d" "d \<le> 31" "day_text d t"
  shows "re_lang re_d t \<and> py_int t = int d"
proof (cases "10 \<le> d \<and> d \<le> 29")
  case True
  with assms(3) obtain c1 c2 where t: "t = [c1, c2]" and c1: "c1 = digit_char (d div 10)"
    and c2: "to_decimal c2 = Some (d mod 10)"
    by (auto simp: day_text_def split: list.splits)
  from True have "d div 10 = 1 \<or> d div 10 = 2" by auto
  then have c1': "c1 = 49 \<or> c1 = 50"
    unfolding c1 by (auto simp: digit_char_def cp_values)
  have "re_lang re_d_digit t"
    unfolding re_d_digit_iff using t c1' c2 by auto
  then have l: "re_lang re_d t" unfolding re_lang_d_split by blast
  have "to_decimal c1 = Some (d div 10)"
    unfolding c1 by (rule to_decimal_digit_char) (use True in auto)
  from py_int_digits2 [OF this c2] have "py_int t = int d"
    unfolding t by simp
  with l show ?thesis ..
next
  case False
  with assms have "d \<in> set ([1..<10] @ [30, 31])" by auto
  moreover from False assms(3) have "t \<in> set (day_forms d)"
    by (simp add: day_text_def)
  ultimately show ?thesis
    using day_forms_table unfolding list_all_iff by blast
qed

lemma month_text_props:
  assumes "1 \<le> m" "m \<le> 12" "month_text m t"
  shows "re_lang re_m t \<and> py_int t = int m"
proof -
  have "m \<in> set [1..<13]" using assms by simp
  moreover have "t \<in> set (month_forms m)" using assms(3) by (simp add: month_text_def)
  ultimately show ?thesis
    using month_forms_table unfolding list_all_iff by blast
qed

lemma digits4_div_mod:
  fixes a b c d :: nat
  assumes "a < 10" "b < 10" "c < 10" "d < 10"
  shows "(1000 * a + 100 * b + 10 * c + d) div 1000 mod 10 = a"
    and "(1000 * a + 100 * b + 10 * c + d) div 100 mod 10 = b"
    and "(1000 * a + 100 * b + 10 * c + d) div 10 mod 10 = c"
    and "(1000 * a + 100 * b + 10 * c + d) mod 10 = d"
proof -
  let ?n = "1000 * a + 100 * b + 10 * c + d"
  have q3: "?n div 1000 = a"
    by (rule div_nat_eqI) (use assms in simp_all)
  have q2: "?n div 100 = 10 * a + b"
    by (rule div_nat_eqI) (use assms in simp_all)
  have q1: "?n div 10 = 100 * a + 10 * b + c"
    by (rule div_nat_eqI) (use assms in simp_all)
  show "?n div 1000 mod 10 = a" unfolding q3 using assms by simp
  show "?n div 100 mod 10 = b" unfolding q2 using assms by simp
  have "100 * a + 10 * b + c = 10 * (10 * a + b) + c" by simp
  then have "(100 * a + 10 * b + c) mod 10 = c mod 10"
    by (simp only: mod_mult_self4)
  then show "?n div 10 mod 10 = c" unfolding q1 using assms by simp
  have "?n = 10 * (100 * a + 10 * b + c) + d" by simp
  then have "?n mod 10 = d mod 10"
    by (simp only: mod_mult_self4)
  then show "?n mod 10 = d" using assms by simp
qed

lemma decimal_decomposition:
  fixes n :: nat
  assumes "n \<le> 9999"
  shows "1000 * (n div 1000 mod 10) + 100 * (n div 100 mod 10) + 10 * (n div 10 mod 10) +
         n mod 10 = n"
proof -
  define q1 where "q1 = n div 10"
  define q2 where "q2 = q1 div 10"
  define q3 where "q3 = q2 div 10"
  have e1: "n = 10 * q1 + n mod 10" by (simp add: q1_def)
  have e2: "q1 = 10 * q2 + q1 mod 10" by (simp add: q2_def)
  have e3: "q2 = 10 * q3 + q2 mod 10" by (simp add: q3_def)
  have d2: "n div 100 = q2" by (simp add: q1_def q2_def div_mult2_eq [symmetric])
  have d3: "n div 1000 = q3" by (simp add: q1_def q2_def q3_def div_mult2_eq [symmetric])
  have "q3 < 10" using assms unfolding d3 [symmetric] by simp
  then have m3: "q3 mod 10 = q3" by simp
  have "1000 * q3 + 100 * (q2 mod 10) + 10 * (q1 mod 10) + n mod 10 = n"
    using e1 e2 e3 by linarith
  then show ?thesis
    by (simp only: d2 d3 m3 q1_def [symmetric])
qed

lemma re_lang_Y_iff:
  "re_lang re_Y t \<longleftrightarrow>
     (\<exists>c1 c2 c3 c4 a b c d. t = [c1, c2, c3, c4] \<and> to_decimal c1 = Some a \<and>
        to_decimal c2 = Some b \<and> to_decimal c3 = Some c \<and> to_decimal c4 = Some d)"
  by (auto simp: re_lang_def re_Y_def list_all2_Cons1)

lemma year_text_iff:
  "year_text y t \<longleftrightarrow>
     (\<exists>c1 c2 c3 c4. t = [c1, c2, c3, c4] \<and> to_decimal c1 = Some (y div 1000 mod 10) \<and>
        to_decimal c2 = Some (y div 100 mod 10) \<and> to_decimal c3 = Some (y div 10 mod 10) \<and>
        to_decimal c4 = Some (y mod 10))"
  by (auto simp: year_text_def map_eq_Cons_conv)

lemma re_Y_props:
  assumes "re_lang re_Y t"
  shows "length t = 4 \<and> 0 \<le> py_int t \<and> py_int t \<le> 9999 \<and> year_text (nat (py_int t)) t"
proof -
  from assms obtain c1 c2 c3 c4 a b c d where t: "t = [c1, c2, c3, c4]"
    and v: "to_decimal c1 = Some a" "to_decimal c2 = Some b" "to_decimal c3 = Some c"
      "to_decimal c4 = Some d"
    unfolding re_lang_Y_iff by blast
  have d: "a < 10" "b < 10" "c < 10" "d < 10"
    using v to_decimal_less by blast+
  let ?n = "1000 * a + 100 * b + 10 * c + d"
  have i: "py_int t = int ?n"
    unfolding t using v by (rule py_int_digits4)
  then have n: "nat (py_int t) = ?n" by (simp only: nat_int)
  have le: "?n \<le> 9999" using d by linarith
  have "year_text ?n t"
    unfolding year_text_iff digits4_div_mod [OF d] using t v by blast
  then have "year_text (nat (py_int t)) t" by (simp only: n)
  moreover have "length t = 4" by (simp add: t)
  moreover have "0 \<le> py_int t" by (simp only: i of_nat_0_le_iff)
  moreover have "py_int t \<le> 9999" using le by (simp only: i)
  ultimately show ?thesis by blast
qed

lemma year_text_props:
  assumes "n \<le> 9999" "year_text n t"
  shows "re_lang re_Y t \<and> py_int t = int n"
proof -
  from assms(2) obtain c1 c2 c3 c4 where t: "t = [c1, c2, c3, c4]"
    and v: "to_decimal c1 = Some (n div 1000 mod 10)" "to_decimal c2 = Some (n div 100 mod 10)"
      "to_decimal c3 = Some (n div 10 mod 10)" "to_decimal c4 = Some (n mod 10)"
    unfolding year_text_iff by blast
  have "re_lang re_Y t"
    unfolding re_lang_Y_iff using t v by blast
  moreover have "py_int t = int n"
    unfolding t using py_int_digits4 [OF v] by (simp only: decimal_decomposition [OF assms(1)])
  ultimately show ?thesis ..
qed

lemma split_at_dot:
  "(46 :: int) \<notin> set a \<Longrightarrow> 46 \<notin> set a' \<Longrightarrow> a @ 46 # b = a' @ 46 # b' \<Longrightarrow> a = a' \<and> b = b'"
proof (induction a arbitrary: a')
  case Nil
  then show ?case by (cases a') auto
next
  case (Cons c a)
  then show ?case by (cases a') auto
qed

lemma ustr_dot: "ustr ''.'' = [46]"
  by (simp add: ustr_def cp_values)

lemma re_match_iff:
  "re_match s = Some (d, m, y, r) \<longleftrightarrow>
     s = d @ ustr ''.'' @ m @ ustr ''.'' @ y @ r \<and> re_lang re_d d \<and> re_lang re_m m \<and>
     re_lang re_Y y"
proof
  assume "re_match s = Some (d, m, y, r)"
  then have "(d, m, y, r) \<in> set (re_matches s)"
    by (auto simp: re_match_def split: list.splits)
  then show "s = d @ ustr ''.'' @ m @ ustr ''.'' @ y @ r \<and> re_lang re_d d \<and> re_lang re_m m \<and>
      re_lang re_Y y"
    by (simp only: re_matches_iff)
next
  assume a: "s = d @ ustr ''.'' @ m @ ustr ''.'' @ y @ r \<and> re_lang re_d d \<and> re_lang re_m m \<and>
      re_lang re_Y y"
  then have mem: "(d, m, y, r) \<in> set (re_matches s)"
    by (simp only: re_matches_iff)
  then obtain q qs where q: "re_matches s = q # qs"
    by (cases "re_matches s") auto
  obtain d' m' y' r' where q': "q = (d', m', y', r')"
    by (cases q) auto
  have "(d', m', y', r') \<in> set (re_matches s)"
    by (simp add: q q')
  then have b: "s = d' @ ustr ''.'' @ m' @ ustr ''.'' @ y' @ r'" "re_lang re_d d'"
      "re_lang re_m m'" "re_lang re_Y y'"
    by (simp_all only: re_matches_iff)
  have e1: "d @ 46 # (m @ ustr ''.'' @ y @ r) = d' @ 46 # (m' @ ustr ''.'' @ y' @ r')"
    using a b(1) by (simp add: ustr_dot)
  have dd: "d = d' \<and> m @ ustr ''.'' @ y @ r = m' @ ustr ''.'' @ y' @ r'"
    using a b(2) re_d_props split_at_dot [OF _ _ e1] by blast
  then have e2: "m @ 46 # (y @ r) = m' @ 46 # (y' @ r')" by (simp add: ustr_dot)
  have mm: "m = m' \<and> y @ r = y' @ r'"
    using a b(3) re_m_props split_at_dot [OF _ _ e2] by blast
  have "length y = length y'"
    using a b(4) re_Y_props by simp
  with mm have "y = y' \<and> r = r'" by simp
  with dd mm q q' show "re_match s = Some (d, m, y, r)"
    by (simp add: re_match_def)
qed

lemma strptime_Inr_iff:
  "strptime x = Inr dt \<longleftrightarrow>
     (\<exists>d m y. x = d @ ustr ''.'' @ m @ ustr ''.'' @ y \<and> re_lang re_d d \<and> re_lang re_m m \<and>
        re_lang re_Y y \<and> check_date_fields (py_int y) (py_int m) (py_int d) \<and>
        dt = \<lparr>year = py_int y, month = py_int m, day = py_int d, hour = 0, minute = 0,
               second = 0, microsecond = 0\<rparr>)"
proof
  assume s: "strptime x = Inr dt"
  then obtain d m y r where mt: "re_match x = Some (d, m, y, r)"
    by (auto simp: strptime_def split: option.splits)
  with s have r: "r = []" and dn: "datetime_new (py_int y) (py_int m) (py_int d) 0 0 0 0 = Inr dt"
    by (auto simp: strptime_def split: if_splits)
  from dn have "check_date_fields (py_int y) (py_int m) (py_int d)"
    and "dt = \<lparr>year = py_int y, month = py_int m, day = py_int d, hour = 0, minute = 0,
               second = 0, microsecond = 0\<rparr>"
    by (auto simp: datetime_new_def split: if_splits)
  with mt r show "\<exists>d m y. x = d @ ustr ''.'' @ m @ ustr ''.'' @ y \<and> re_lang re_d d \<and>
        re_lang re_m m \<and> re_lang re_Y y \<and>
        check_date_fields (py_int y) (py_int m) (py_int d) \<and>
        dt = \<lparr>year = py_int y, month = py_int m, day = py_int d, hour = 0, minute = 0,
               second = 0, microsecond = 0\<rparr>"
    unfolding re_match_iff by auto
next
  assume "\<exists>d m y. x = d @ ustr ''.'' @ m @ ustr ''.'' @ y \<and> re_lang re_d d \<and> re_lang re_m m \<and>
        re_lang re_Y y \<and> check_date_fields (py_int y) (py_int m) (py_int d) \<and>
        dt = \<lparr>year = py_int y, month = py_int m, day = py_int d, hour = 0, minute = 0,
               second = 0, microsecond = 0\<rparr>"
  then obtain d m y where a: "x = d @ ustr ''.'' @ m @ ustr ''.'' @ y @ []" "re_lang re_d d"
      "re_lang re_m m" "re_lang re_Y y" "check_date_fields (py_int y) (py_int m) (py_int d)"
      "dt = \<lparr>year = py_int y, month = py_int m, day = py_int d, hour = 0, minute = 0,
               second = 0, microsecond = 0\<rparr>"
    by auto
  then have "re_match x = Some (d, m, y, [])"
    by (simp only: re_match_iff)
  with a(5,6) show "strptime x = Inr dt"
    by (simp add: strptime_def datetime_new_def check_time_fields_def)
qed

lemma days_in_month_le_31:
  assumes "1 \<le> m" "m \<le> 12"
  shows "days_in_month y m \<le> 31"
proof -
  have "m = 1 \<or> m = 2 \<or> m = 3 \<or> m = 4 \<or> m = 5 \<or> m = 6 \<or> m = 7 \<or> m = 8 \<or> m = 9 \<or>
      m = 10 \<or> m = 11 \<or> m = 12"
    using assms by arith
  then show ?thesis
    by (auto simp: days_in_month_def DAYS_IN_MONTH_def)
qed

lemma strptime_texts_iff:
  "strptime x = Inr dt \<longleftrightarrow>
     (\<exists>y m d ds ms ys. check_date_fields (int y) (int m) (int d) \<and>
        x = ds @ ustr ''.'' @ ms @ ustr ''.'' @ ys \<and>
        day_text d ds \<and> month_text m ms \<and> year_text y ys \<and> dt = midnight y m d)"
proof
  assume "strptime x = Inr dt"
  then obtain ds ms ys where a: "x = ds @ ustr ''.'' @ ms @ ustr ''.'' @ ys" "re_lang re_d ds"
      "re_lang re_m ms" "re_lang re_Y ys"
      "check_date_fields (py_int ys) (py_int ms) (py_int ds)"
      "dt = \<lparr>year = py_int ys, month = py_int ms, day = py_int ds, hour = 0, minute = 0,
               second = 0, microsecond = 0\<rparr>"
    unfolding strptime_Inr_iff by blast
  let ?y = "nat (py_int ys)" and ?m = "nat (py_int ms)" and ?d = "nat (py_int ds)"
  have i: "int ?y = py_int ys" "int ?m = py_int ms" "int ?d = py_int ds"
    using re_Y_props [OF a(4)] re_m_props [OF a(3)] re_d_props [OF a(2)] by simp_all
  have t: "day_text ?d ds" "month_text ?m ms" "year_text ?y ys"
    using re_Y_props [OF a(4)] re_m_props [OF a(3)] re_d_props [OF a(2)] by blast+
  have c: "check_date_fields (int ?y) (int ?m) (int ?d)"
    using a(5) by (simp only: i)
  have v: "dt = midnight ?y ?m ?d"
    using a(6) by (simp only: midnight_def i)
  from c a(1) t v show "\<exists>y m d ds ms ys. check_date_fields (int y) (int m) (int d) \<and>
      x = ds @ ustr ''.'' @ ms @ ustr ''.'' @ ys \<and>
      day_text d ds \<and> month_text m ms \<and> year_text y ys \<and> dt = midnight y m d"
    by blast
next
  assume "\<exists>y m d ds ms ys. check_date_fields (int y) (int m) (int d) \<and>
      x = ds @ ustr ''.'' @ ms @ ustr ''.'' @ ys \<and>
      day_text d ds \<and> month_text m ms \<and> year_text y ys \<and> dt = midnight y m d"
  then obtain y m d ds ms ys where a: "check_date_fields (int y) (int m) (int d)"
      "x = ds @ ustr ''.'' @ ms @ ustr ''.'' @ ys" "day_text d ds" "month_text m ms"
      "year_text y ys" "dt = midnight y m d"
    by blast
  from a(1) have b: "1 \<le> y" "y \<le> 9999" "1 \<le> m" "m \<le> 12" "1 \<le> d"
      "int d \<le> days_in_month (int y) (int m)"
    by (simp_all add: check_date_fields_def MINYEAR_def MAXYEAR_def)
  have "days_in_month (int y) (int m) \<le> 31"
    using b(3,4) by (intro days_in_month_le_31) simp_all
  with b(6) have d31: "d \<le> 31" by linarith
  note dp = day_text_props [OF b(5) d31 a(3)]
  note mp = month_text_props [OF b(3,4) a(4)]
  note yp = year_text_props [OF b(2) a(5)]
  show "strptime x = Inr dt"
    unfolding strptime_Inr_iff
    using a(1,2,6) dp mp yp
    by (intro exI [of _ ds] exI [of _ ms] exI [of _ ys]) (simp add: midnight_def)
qed

lemma decimal_pad4:
  assumes "1000 \<le> n" "n \<le> 9999"
  shows "decimal n = pad4 n"
proof -
  have a: "\<not> n < 10" "\<not> n div 10 < 10" "\<not> n div 10 div 10 < 10" "n div 10 div 10 div 10 < 10"
    using assms by simp_all
  have d: "n div 10 div 10 = n div 100" "n div 100 div 10 = n div 1000"
    by (simp_all add: div_mult2_eq [symmetric])
  have m: "n div 1000 mod 10 = n div 1000"
    using assms by simp
  have "decimal n = [digit_char (n div 10 div 10 div 10), digit_char (n div 10 div 10 mod 10),
      digit_char (n div 10 mod 10), digit_char (n mod 10)]"
    by (subst decimal.simps, simp only: a if_False,
        subst decimal.simps, simp only: a if_False,
        subst decimal.simps, simp only: a if_False,
        subst decimal.simps, simp only: a if_True append.simps)
  also have "\<dots> = pad4 n"
    by (simp only: pad4_def d m)
  finally show ?thesis .
qed

lemma strftime_midnight:
  assumes "pad_year \<or> 1000 \<le> y" "y \<le> 9999"
  shows "strftime pad_year (midnight y m d) = padded_date y m d"
proof (cases pad_year)
  case True
  then show ?thesis
    by (simp add: strftime_def midnight_def padded_date_def)
next
  case False
  with assms have "decimal y = pad4 y" by (intro decimal_pad4) simp_all
  with False show ?thesis
    by (simp add: strftime_def midnight_def padded_date_def)
qed

lemma pad2_day_table: "list_all (\<lambda>d. day_text d (pad2 d)) [1..<32]"
  by code_simp

lemma pad2_month_table: "list_all (\<lambda>m. month_text m (pad2 m)) [1..<13]"
  by code_simp

lemma pad4_year_text: "year_text y (pad4 y)"
  by (simp add: year_text_def pad4_def to_decimal_digit_char)

lemma Birthday_init_Inr_iff:
  "Birthday_init x = Inr b \<longleftrightarrow>
     (\<exists>y m d ds ms ys. check_date_fields (int y) (int m) (int d) \<and>
        x = ds @ ustr ''.'' @ ms @ ustr ''.'' @ ys \<and>
        day_text d ds \<and> month_text m ms \<and> year_text y ys \<and> b = Birthday (midnight y m d))"
proof
  assume "Birthday_init x = Inr b"
  then have "strptime x = Inr (birthday_value b)"
    by (cases "strptime x") (auto simp: Birthday_init_def)
  then obtain y m d ds ms ys where a: "check_date_fields (int y) (int m) (int d)"
      "x = ds @ ustr ''.'' @ ms @ ustr ''.'' @ ys" "day_text d ds" "month_text m ms"
      "year_text y ys" "birthday_value b = midnight y m d"
    unfolding strptime_texts_iff by blast
  from a(6) have "b = Birthday (midnight y m d)" by (cases b) simp
  with a show "\<exists>y m d ds ms ys. check_date_fields (int y) (int m) (int d) \<and>
      x = ds @ ustr ''.'' @ ms @ ustr ''.'' @ ys \<and>
      day_text d ds \<and> month_text m ms \<and> year_text y ys \<and> b = Birthday (midnight y m d)"
    by blast
next
  assume "\<exists>y m d ds ms ys. check_date_fields (int y) (int m) (int d) \<and>
      x = ds @ ustr ''.'' @ ms @ ustr ''.'' @ ys \<and>
      day_text d ds \<and> month_text m ms \<and> year_text y ys \<and> b = Birthday (midnight y m d)"
  then obtain y m d ds ms ys where a: "check_date_fields (int y) (int m) (int d)"
      "x = ds @ ustr ''.'' @ ms @ ustr ''.'' @ ys" "day_text d ds" "month_text m ms"
      "year_text y ys" "b = Birthday (midnight y m d)"
    by blast
  from a(1-5) have "strptime x = Inr (midnight y m d)"
    unfolding strptime_texts_iff by blast
  with a(6) show "Birthday_init x = Inr b"
    by (simp add: Birthday_init_def)
qed

lemma padded_date_accepted:
  assumes "check_date_fields (int y) (int m) (int d)"
  shows "Birthday_init (padded_date y m d) = Inr (Birthday (midnight y m d))"
proof -
  from assms have b: "1 \<le> m" "m \<le> 12" "1 \<le> d" "int d \<le> days_in_month (int y) (int m)"
    by (simp_all add: check_date_fields_def)
  have "days_in_month (int y) (int m) \<le> 31"
    using b(1,2) by (intro days_in_month_le_31) simp_all
  with b(4) have "d \<le> 31" by linarith
  with b(3) have "d \<in> set [1..<32]" by simp
  with pad2_day_table have dt: "day_text d (pad2 d)"
    unfolding list_all_iff by blast
  have "m \<in> set [1..<13]" using b(1,2) by simp
  with pad2_month_table have mt: "month_text m (pad2 m)"
    unfolding list_all_iff by blast
  show ?thesis
    unfolding Birthday_init_Inr_iff padded_date_def
    using assms dt mt pad4_year_text by blast
qed

text \<open>
  Claim C3 says that \<^verbatim>\<open>Birthday\<close> fails for every string that is not a calendar date in
  the zero-padded form \<^verbatim>\<open>DD.MM.YYYY\<close>. The pattern of \<^verbatim>\<open>%d\<close> and \<^verbatim>\<open>%m\<close> also takes one
  digit, and \<^verbatim>\<open>%d\<close> a space and one digit: \<^verbatim>\<open>1.2.1990\<close>, eight characters long, is
  accepted as 1 February 1990 and is rendered as \<^verbatim>\<open>01.02.1990\<close>, not as itself.
\<close>

theorem Birthday_init_unpadded_counterexample:
  "Birthday_init (ustr ''1.2.1990'') = Inr (Birthday (midnight 1990 2 1)) \<and>
   Birthday_str True (Birthday (midnight 1990 2 1)) = ustr ''01.02.1990'' \<and>
   Birthday_str False (Birthday (midnight 1990 2 1)) = ustr ''01.02.1990'' \<and>
   length (ustr ''1.2.1990'') = 8 \<and>
   Birthday_init (ustr '' 1.2.1990'') = Inr (Birthday (midnight 1990 2 1))"
proof -
  have 1: "Birthday_init (ustr ''1.2.1990'') = Inr (Birthday (midnight 1990 2 1))"
    by code_simp
  have 2: "Birthday_str True (Birthday (midnight 1990 2 1)) = ustr ''01.02.1990''"
    by code_simp
  have p: "padded_date 1990 2 1 = ustr ''01.02.1990''" by code_simp
  have 3: "Birthday_str False (Birthday (midnight 1990 2 1)) = ustr ''01.02.1990''"
    unfolding Birthday_str_def Birthday.sel p [symmetric]
    by (rule strftime_midnight) simp_all
  have 4: "Birthday_init (ustr '' 1.2.1990'') = Inr (Birthday (midnight 1990 2 1))"
    by code_simp
  from 1 2 3 4 show ?thesis by simp
qed

text \<open>
  Claim C3, amended. \<^verbatim>\<open>Birthday(x)\<close> succeeds exactly when \<open>x\<close> is a text \<^verbatim>\<open>D.M.YYYY\<close> of a
  calendar date of the years 1 to 9999, where the year is written with four decimal
  digits of any script, the month with two ASCII digits or, below 10, also with one, and
  the day with two ASCII digits or, below 10, also with one ASCII digit or with a space
  and one ASCII digit; the second digit of a day from 10 to 29 may be a decimal digit of
  any script. The value is that day at 00:00:00. Every other string fails with
  \<^verbatim>\<open>ValueError\<close>. In particular the zero-padded ASCII text \<^verbatim>\<open>DD.MM.YYYY\<close> of a calendar date
  is accepted, and rendering the result gives that text back: for every year where
  \<^verbatim>\<open>strftime\<close> zero-fills the year, and from the year 1000 on in any case.
\<close>

theorem Birthday_init_accepts_day_month_year_texts:
  "(Birthday_init x = Inr b \<longleftrightarrow>
      (\<exists>y m d ds ms ys. check_date_fields (int y) (int m) (int d) \<and>
         x = ds @ ustr ''.'' @ ms @ ustr ''.'' @ ys \<and>
         day_text d ds \<and> month_text m ms \<and> year_text y ys \<and>
         b = Birthday (midnight y m d))) \<and>
   ((\<forall>b'. Birthday_init x \<noteq> Inr b') \<longrightarrow> Birthday_init x = Inl ValueError) \<and>
   (check_date_fields (int y) (int m) (int d) \<longrightarrow>
      Birthday_init (padded_date y m d) = Inr (Birthday (midnight y m d)) \<and>
      (pad_year \<or> 1000 \<le> y \<longrightarrow>
         Birthday_str pad_year (Birthday (midnight y m d)) = padded_date y m d))"
proof (intro conjI impI)
  show "Birthday_init x = Inr b \<longleftrightarrow>
      (\<exists>y m d ds ms ys. check_date_fields (int y) (int m) (int d) \<and>
         x = ds @ ustr ''.'' @ ms @ ustr ''.'' @ ys \<and>
         day_text d ds \<and> month_text m ms \<and> year_text y ys \<and>
         b = Birthday (midnight y m d))"
    by (rule Birthday_init_Inr_iff)
next
  assume "\<forall>b'. Birthday_init x \<noteq> Inr b'"
  then show "Birthday_init x = Inl ValueError"
    by (cases "strptime x") (auto simp: Birthday_init_def)
next
  assume c: "check_date_fields (int y) (int m) (int d)"
  then show "Birthday_init (padded_date y m d) = Inr (Birthday (midnight y m d))"
    by (rule padded_date_accepted)
next
  assume c: "check_date_fields (int y) (int m) (int d)" and p: "pad_year \<or> 1000 \<le> y"
  from c have "y \<le> 9999" by (simp add: check_date_fields_def MAXYEAR_def)
  with p show "Birthday_str pad_year (Birthday (midnight y m d)) = padded_date y m d"
    by (simp add: Birthday_str_def strftime_midnight)
qed

theorem Birthday_init_accepts_day_month_year_texts_witness:
  "Birthday_init (ustr ''01.02.1990'') = Inr (Birthday (midnight 1990 2 1)) \<and>
   Birthday_str True (Birthday (midnight 1990 2 1)) = ustr ''01.02.1990'' \<and>
   Birthday_str False (Birthday (midnight 1990 2 1)) = ustr ''01.02.1990'' \<and>
   Birthday_init ([0x31, 0x665] @ ustr ''.02.'' @ [0x661, 0x669, 0x669, 0x660]) =
     Inr (Birthday (midnight 1990 2 15)) \<and>
   Birthday_init ([0x661] @ ustr ''.2.1990'') = Inl ValueError"
proof -
  have c: "check_date_fields (int 1990) (int 2) (int 1)" by code_simp
  have p: "padded_date 1990 2 1 = ustr ''01.02.1990''" by code_simp
  have y: "(1000 :: nat) \<le> 1990" by simp
  have t: "Birthday_init (padded_date 1990 2 1) = Inr (Birthday (midnight 1990 2 1)) \<and>
      Birthday_str True (Birthday (midnight 1990 2 1)) = padded_date 1990 2 1"
    using c
      Birthday_init_accepts_day_month_year_texts [of "ustr ''01.02.1990''" _ 1990 2 1 True]
    by blast
  have f: "Birthday_str False (Birthday (midnight 1990 2 1)) = padded_date 1990 2 1"
    using c y
      Birthday_init_accepts_day_month_year_texts [of "ustr ''01.02.1990''" _ 1990 2 1 False]
    by blast
  have c15: "check_date_fields (int 1990) (int 2) (int 15)" by code_simp
  have s: "[0x31, 0x665] @ ustr ''.02.'' @ [0x661, 0x669, 0x669, 0x660] =
      [0x31, 0x665] @ ustr ''.'' @ ustr ''02'' @ ustr ''.'' @ [0x661, 0x669, 0x669, 0x660]"
    by (simp add: ustr_def)
  have d15: "day_text 15 [0x31, 0x665]" by code_simp
  have m2: "month_text 2 (ustr ''02'')" by code_simp
  have y1990: "year_text 1990 [0x661, 0x669, 0x669, 0x660]" by code_simp
  have u: "Birthday_init ([0x31, 0x665] @ ustr ''.02.'' @ [0x661, 0x669, 0x669, 0x660]) =
      Inr (Birthday (midnight 1990 2 15))"
    unfolding Birthday_init_accepts_day_month_year_texts [THEN conjunct1]
    using c15 s d15 m2 y1990 by blast
  have n: "Birthday_init ([0x661] @ ustr ''.2.1990'') = Inl ValueError"
    by code_simp
  from t f u n show ?thesis unfolding p by blast
qed

subsection \<open>Record\<close>

text \<open>
  Claim C1 says that \<^verbatim>\<open>edit_phone(old, new)\<close> with a \<open>new\<close> that is not ten digits fails
  with the validator's error and leaves the phone list as it was. \<^verbatim>\<open>edit_phone\<close> assigns
  \<^verbatim>\<open>phone.value\<close> and never calls \<^verbatim>\<open>Phone.__init__\<close>: on a record holding
  \<open>0501234567\<close>, editing it to \<open>abc\<close>, a value the constructor rejects, returns normally
  and the list holds \<open>abc\<close>.
\<close>

theorem edit_phone_stores_unvalidated_value:
  "Phone_init (ustr ''abc'') = Inl ValueError \<and>
   edit_phone \<lparr>name = Name (ustr ''Bob''), phones = [Phone (ustr ''0501234567'')], birthday = None\<rparr>
       (ustr ''0501234567'') (ustr ''abc'') =
     \<lparr>name = Name (ustr ''Bob''), phones = [Phone (ustr ''abc'')], birthday = None\<rparr>"
  by (simp add: Phone_init_def edit_phone_def)

theorem edit_phone_stores_unvalidated_value_witness:
  "phones (edit_phone \<lparr>name = Name (ustr ''Bob''), phones = [Phone (ustr ''0501234567'')], birthday = None\<rparr>
       (ustr ''0501234567'') (ustr ''abc'')) = [Phone (ustr ''abc'')]"
  using edit_phone_stores_unvalidated_value by simp

lemma phone_value_neq: "(phone_value p \<noteq> v) = (p \<noteq> Phone v)"
  by (cases p) simp

text \<open>
  Claim C4: for every record and every string \<open>v\<close>, \<^verbatim>\<open>remove_phone(v)\<close> removes all phone
  entries whose value equals \<open>v\<close>, keeps every other entry (in order, with repetitions),
  leaves name and birthday alone, raises nothing, and changes nothing when no entry
  matches.
\<close>

theorem remove_phone_removes_all_matches:
  "phones (remove_phone r v) = filter (\<lambda>p. p \<noteq> Phone v) (phones r) \<and>
   set (phones (remove_phone r v)) = set (phones r) - {Phone v} \<and>
   name (remove_phone r v) = name r \<and>
   birthday (remove_phone r v) = birthday r \<and>
   (Phone v \<notin> set (phones r) \<longrightarrow> remove_phone r v = r)"
proof -
  have eq: "phones (remove_phone r v) = filter (\<lambda>p. p \<noteq> Phone v) (phones r)"
    by (simp add: remove_phone_def phone_value_neq)
  have "Phone v \<notin> set (phones r) \<Longrightarrow> filter (\<lambda>p. p \<noteq> Phone v) (phones r) = phones r"
    by (rule filter_True) auto
  then have "Phone v \<notin> set (phones r) \<Longrightarrow> remove_phone r v = r"
    by (simp add: remove_phone_def phone_value_neq)
  with eq show ?thesis
    by (auto simp: remove_phone_def)
qed

theorem remove_phone_removes_all_matches_witness:
  "Phone (ustr ''111'') \<notin> set [Phone (ustr ''0501234567''), Phone (ustr ''0507654321'')] \<and>
   remove_phone \<lparr>name = Name (ustr ''Bob''), phones = [Phone (ustr ''0501234567''), Phone (ustr ''0507654321'')],
                  birthday = None\<rparr> (ustr ''111'') =
     \<lparr>name = Name (ustr ''Bob''), phones = [Phone (ustr ''0501234567''), Phone (ustr ''0507654321'')],
        birthday = None\<rparr> \<and>
   phones (remove_phone \<lparr>name = Name (ustr ''Bob''),
        phones = [Phone (ustr ''0501234567''), Phone (ustr ''0507654321''), Phone (ustr ''0501234567'')],
        birthday = None\<rparr> (ustr ''0501234567'')) = [Phone (ustr ''0507654321'')]"
  using remove_phone_removes_all_matches
    [of "\<lparr>name = Name (ustr ''Bob''), phones = [Phone (ustr ''0501234567''), Phone (ustr ''0507654321'')],
          birthday = None\<rparr>" "(ustr ''111'')"]
    remove_phone_removes_all_matches
    [of "\<lparr>name = Name (ustr ''Bob''),
          phones = [Phone (ustr ''0501234567''), Phone (ustr ''0507654321''), Phone (ustr ''0501234567'')],
          birthday = None\<rparr>" "(ustr ''0501234567'')"]
  by simp

subsection \<open>AddressBook\<close>

lemma dict_get_dict_set:
  "dict_get (dict_set kvs k v) k' = (if k' = k then Some v else dict_get kvs k')"
  by (induction kvs k v rule: dict_set.induct) auto

lemma dict_set_dict_set: "dict_set (dict_set kvs k v) k v' = dict_set kvs k v'"
  by (induction kvs k v rule: dict_set.induct) auto

lemma dict_contains_iff: "dict_contains kvs k \<longleftrightarrow> k \<in> fst ` set kvs"
  by (induction kvs k rule: dict_contains.induct) auto

lemma dict_get_None_iff: "dict_get kvs k = None \<longleftrightarrow> k \<notin> fst ` set kvs"
  by (induction kvs k rule: dict_get.induct) auto

lemma dict_del_filter:
  "distinct (map fst kvs) \<Longrightarrow> dict_del kvs k = filter (\<lambda>kv. fst kv \<noteq> k) kvs"
proof (induction kvs k rule: dict_del.induct)
  case (1 k)
  then show ?case by simp
next
  case (2 k' v' kvs k)
  show ?case
  proof (cases "k' = k")
    case True
    with 2 have "k \<notin> fst ` set kvs" by auto
    then have "filter (\<lambda>kv. fst kv \<noteq> k) kvs = kvs"
      by (intro filter_True) auto
    with True show ?thesis by simp
  next
    case False
    with 2 show ?thesis by simp
  qed
qed

lemma dict_get_filter:
  "dict_get (filter (\<lambda>kv. fst kv \<noteq> k) kvs) k' = (if k' = k then None else dict_get kvs k')"
  by (induction kvs) auto

lemma delete_filter: "wf_book data \<Longrightarrow> delete data n = filter (\<lambda>kv. fst kv \<noteq> n) data"
proof (cases "dict_contains data n")
  case True
  assume "wf_book data"
  with True show ?thesis by (simp add: delete_def wf_book_def dict_del_filter)
next
  case False
  then have "filter (\<lambda>kv. fst kv \<noteq> n) data = data"
    by (intro filter_True) (auto simp: dict_contains_iff)
  with False show ?thesis by (simp add: delete_def)
qed

text \<open>
  Claim C5: for every book and every two records with the same name, \<^verbatim>\<open>add_record\<close> of
  the first and then of the second leaves the book as \<^verbatim>\<open>add_record\<close> of the second alone
  would: the name maps to the second record, nothing of the first record remains, and
  the other names are untouched.
\<close>

theorem add_record_same_name_replaces:
  assumes "name r1 = name r2"
  shows "add_record (add_record data r1) r2 = add_record data r2 \<and>
         find_record (add_record (add_record data r1) r2) (name_value (name r2)) = Some r2 \<and>
         (\<forall>k. k \<noteq> name_value (name r2) \<longrightarrow>
            find_record (add_record (add_record data r1) r2) k = find_record data k)"
  using assms by (simp add: add_record_def find_record_def dict_get_dict_set dict_set_dict_set)

theorem add_record_same_name_replaces_witness:
  "name \<lparr>name = Name (ustr ''Bob''), phones = [Phone (ustr ''0501234567'')], birthday = None\<rparr> =
     name (Record_init (ustr ''Bob'')) \<and>
   add_record (add_record []
       \<lparr>name = Name (ustr ''Bob''), phones = [Phone (ustr ''0501234567'')], birthday = None\<rparr>)
       (Record_init (ustr ''Bob'')) = [((ustr ''Bob''), Record_init (ustr ''Bob''))] \<and>
   find_record (add_record (add_record []
       \<lparr>name = Name (ustr ''Bob''), phones = [Phone (ustr ''0501234567'')], birthday = None\<rparr>)
       (Record_init (ustr ''Bob''))) (ustr ''Bob'') =
     Some \<lparr>name = Name (ustr ''Bob''), phones = [], birthday = None\<rparr>"
proof -
  have h: "name \<lparr>name = Name (ustr ''Bob''), phones = [Phone (ustr ''0501234567'')], birthday = None\<rparr> =
      name (Record_init (ustr ''Bob''))"
    by (simp add: Record_init_def)
  show ?thesis
    using h add_record_same_name_replaces [OF h, of "[]"]
    by (simp add: Record_init_def add_record_def)
qed

text \<open>
  Claim C9: for every book and every name \<open>n\<close>, \<^verbatim>\<open>delete(n)\<close> raises nothing; it removes
  the entry under \<open>n\<close> when there is one and keeps every other entry, in order; when
  \<open>n\<close> is absent the book is unchanged.
\<close>

theorem delete_removes_only_that_name:
  assumes "wf_book data"
  shows "delete data n = filter (\<lambda>kv. fst kv \<noteq> n) data \<and>
         find_record (delete data n) n = None \<and>
         (\<forall>k. k \<noteq> n \<longrightarrow> find_record (delete data n) k = find_record data k) \<and>
         (find_record data n = None \<longrightarrow> delete data n = data) \<and>
         wf_book (delete data n)"
proof -
  have "find_record data n = None \<Longrightarrow> delete data n = data"
    by (simp add: find_record_def delete_def dict_get_None_iff dict_contains_iff)
  moreover have "wf_book (filter (\<lambda>kv. fst kv \<noteq> n) data)"
    using assms by (simp add: wf_book_def distinct_map_filter)
  ultimately show ?thesis
    using delete_filter [OF assms, of n] by (simp add: find_record_def dict_get_filter)
qed

theorem delete_removes_only_that_name_witness:
  "wf_book [((ustr ''Ann''), Record_init (ustr ''Ann'')), ((ustr ''Bob''), Record_init (ustr ''Bob''))] \<and>
   delete [((ustr ''Ann''), Record_init (ustr ''Ann'')), ((ustr ''Bob''), Record_init (ustr ''Bob''))] (ustr ''Ann'') =
     [((ustr ''Bob''), Record_init (ustr ''Bob''))] \<and>
   find_record [((ustr ''Ann''), Record_init (ustr ''Ann'')), ((ustr ''Bob''), Record_init (ustr ''Bob''))] (ustr ''Eve'') = None \<and>
   delete [((ustr ''Ann''), Record_init (ustr ''Ann'')), ((ustr ''Bob''), Record_init (ustr ''Bob''))] (ustr ''Eve'') =
     [((ustr ''Ann''), Record_init (ustr ''Ann'')), ((ustr ''Bob''), Record_init (ustr ''Bob''))]"
proof -
  have wf: "wf_book [((ustr ''Ann''), Record_init (ustr ''Ann'')), ((ustr ''Bob''), Record_init (ustr ''Bob''))]"
    by (simp add: wf_book_def)
  show ?thesis
    using wf delete_removes_only_that_name [OF wf, of "(ustr ''Ann'')"]
      delete_removes_only_that_name [OF wf, of "(ustr ''Eve'')"]
    by (simp add: find_record_def)
qed

subsection \<open>The birthday query\<close>

text \<open>
  Claim C8: for every book, every clock reading and every two argument lists, the
  \<^verbatim>\<open>birthdays\<close> handler returns the same reply: \<^verbatim>\<open>args\<close> is never read, the window is
  \<^verbatim>\<open>timedelta(days=7)\<close>.
\<close>

theorem birthdays_ignores_args:
  "birthdays args1 today contacts = birthdays args2 today contacts"
  by (simp add: birthdays_def birthdays_body_def)

theorem birthdays_ignores_args_witness:
  "birthdays [(ustr ''30'')]
     \<lparr>year = 2024, month = 1, day = 1, hour = 0, minute = 0, second = 0, microsecond = 0\<rparr>
     [((ustr ''Ann''), \<lparr>name = Name (ustr ''Ann''), phones = [],
         birthday = Some (Birthday \<lparr>year = 1985, month = 1, day = 8, hour = 0, minute = 0,
                                    second = 0, microsecond = 0\<rparr>)\<rparr>),
      ((ustr ''Eve''), \<lparr>name = Name (ustr ''Eve''), phones = [],
         birthday = Some (Birthday \<lparr>year = 1985, month = 1, day = 9, hour = 0, minute = 0,
                                    second = 0, microsecond = 0\<rparr>)\<rparr>)] =
   Upcoming [Birthday_line (ustr ''Ann'')
     (Birthday \<lparr>year = 1985, month = 1, day = 8, hour = 0, minute = 0, second = 0,
                 microsecond = 0\<rparr>) 7]"
proof -
  have "birthdays []
     \<lparr>year = 2024, month = 1, day = 1, hour = 0, minute = 0, second = 0, microsecond = 0\<rparr>
     [((ustr ''Ann''), \<lparr>name = Name (ustr ''Ann''), phones = [],
         birthday = Some (Birthday \<lparr>year = 1985, month = 1, day = 8, hour = 0, minute = 0,
                                    second = 0, microsecond = 0\<rparr>)\<rparr>),
      ((ustr ''Eve''), \<lparr>name = Name (ustr ''Eve''), phones = [],
         birthday = Some (Birthday \<lparr>year = 1985, month = 1, day = 9, hour = 0, minute = 0,
                                    second = 0, microsecond = 0\<rparr>)\<rparr>)] =
   Upcoming [Birthday_line (ustr ''Ann'')
     (Birthday \<lparr>year = 1985, month = 1, day = 8, hour = 0, minute = 0, second = 0,
                 microsecond = 0\<rparr>) 7]"
    by code_simp
  then show ?thesis
    by (simp only: birthdays_ignores_args [of "[(ustr ''30'')]" _ _ "[]"])
qed

text \<open>
  Claim C6 says that a record is listed exactly when \<open>today \<le> birthday_this_year \<le>
  today + 7 days\<close>, with \<open>days_left\<close> the whole days between them, and that on 2024-01-01
  a birthday of 03.01.1985 is listed with \<open>days_left = 2\<close>. \<^verbatim>\<open>datetime.today()\<close> carries
  the time of day and \<open>birthday_this_year\<close> is at 00:00:00. At 12:00 on 2024-01-01 the
  birthday of 03.01.1985 is one day and twelve hours away and is listed with
  \<open>days_left = 1\<close>, and a birthday of 01.01.1985, that very day, is earlier than \<open>today\<close>
  and is not listed. Only at 00:00:00.000000 is \<open>days_left\<close> 2.
\<close>

theorem birthdays_counts_from_time_of_day:
  "add_birthday (Record_init (ustr ''Ann'')) (ustr ''03.01.1985'') =
     Inr \<lparr>name = Name (ustr ''Ann''), phones = [],
          birthday = Some (Birthday \<lparr>year = 1985, month = 1, day = 3, hour = 0, minute = 0,
                                     second = 0, microsecond = 0\<rparr>)\<rparr> \<and>
   birthdays []
     \<lparr>year = 2024, month = 1, day = 1, hour = 12, minute = 0, second = 0, microsecond = 0\<rparr>
     [((ustr ''Ann''), \<lparr>name = Name (ustr ''Ann''), phones = [],
                 birthday = Some (Birthday \<lparr>year = 1985, month = 1, day = 3, hour = 0,
                                            minute = 0, second = 0, microsecond = 0\<rparr>)\<rparr>)] =
     Upcoming [Birthday_line (ustr ''Ann'')
       (Birthday \<lparr>year = 1985, month = 1, day = 3, hour = 0, minute = 0, second = 0,
                   microsecond = 0\<rparr>) 1] \<and>
   birthdays []
     \<lparr>year = 2024, month = 1, day = 1, hour = 12, minute = 0, second = 0, microsecond = 0\<rparr>
     [((ustr ''Eve''), \<lparr>name = Name (ustr ''Eve''), phones = [],
                 birthday = Some (Birthday \<lparr>year = 1985, month = 1, day = 1, hour = 0,
                                            minute = 0, second = 0, microsecond = 0\<rparr>)\<rparr>)] =
     No_upcoming_birthdays"
  by code_simp

theorem birthdays_counts_from_time_of_day_witness:
  "birthdays []
     \<lparr>year = 2024, month = 1, day = 1, hour = 12, minute = 0, second = 0, microsecond = 0\<rparr>
     [((ustr ''Ann''), \<lparr>name = Name (ustr ''Ann''), phones = [],
                 birthday = Some (Birthday \<lparr>year = 1985, month = 1, day = 3, hour = 0,
                                            minute = 0, second = 0, microsecond = 0\<rparr>)\<rparr>)] \<noteq>
   Upcoming [Birthday_line (ustr ''Ann'')
     (Birthday \<lparr>year = 1985, month = 1, day = 3, hour = 0, minute = 0, second = 0,
                 microsecond = 0\<rparr>) 2]"
  using birthdays_counts_from_time_of_day by simp

lemma birthdays_at_midnight:
  "birthdays []
     \<lparr>year = 2024, month = 1, day = 1, hour = 0, minute = 0, second = 0, microsecond = 0\<rparr>
     [((ustr ''Ann''), \<lparr>name = Name (ustr ''Ann''), phones = [],
                 birthday = Some (Birthday \<lparr>year = 1985, month = 1, day = 3, hour = 0,
                                            minute = 0, second = 0, microsecond = 0\<rparr>)\<rparr>),
      ((ustr ''Eve''), \<lparr>name = Name (ustr ''Eve''), phones = [],
                 birthday = Some (Birthday \<lparr>year = 1985, month = 1, day = 15, hour = 0,
                                            minute = 0, second = 0, microsecond = 0\<rparr>)\<rparr>)] =
   Upcoming [Birthday_line (ustr ''Ann'')
     (Birthday \<lparr>year = 1985, month = 1, day = 3, hour = 0, minute = 0, second = 0,
                 microsecond = 0\<rparr>) 2]"
  by code_simp

lemma birthdays_loop_append:
  "birthdays_loop today next_week (xs @ ys) acc =
     (case birthdays_loop today next_week xs acc of
        Inl e \<Rightarrow> Inl e
      | Inr acc' \<Rightarrow> birthdays_loop today next_week ys acc')"
  by (induction xs arbitrary: acc) (auto simp: Let_def split: option.splits sum.splits)

lemma birthdays_loop_skip:
  assumes "birthday record = Some b"
    and "replace_year (birthday_value b) (year today) = Inr birthday_this_year"
    and "dt_lt birthday_this_year today"
  shows "birthdays_loop today next_week (record # records) acc =
         birthdays_loop today next_week records acc"
proof -
  have "\<not> dt_le today birthday_this_year"
    using assms(3) by (simp add: dt_le_def dt_lt_def not_le)
  with assms(1,2) show ?thesis by simp
qed

text \<open>
  Claim C7: a record whose birthday, put into today's year, is a date and time strictly
  before \<open>today\<close> (any moment of an earlier day, as with today = 29 December and a
  birthday in early January) is left out of the query without any error: the reply is the
  one the book without that record gets. No later year is tried.
\<close>

theorem birthdays_excludes_birthday_before_today:
  assumes "birthday record = Some b"
    and "replace_year (birthday_value b) (year today) = Inr birthday_this_year"
    and "dt_lt birthday_this_year today"
  shows "birthdays args today (earlier @ (k, record) # later) =
         birthdays args today (earlier @ later)"
proof -
  have loop_eq: "birthdays_loop today next_week (map snd (earlier @ (k, record) # later)) [] =
        birthdays_loop today next_week (map snd (earlier @ later)) []" for next_week
    using birthdays_loop_skip [OF assms]
    by (simp add: birthdays_loop_append split: sum.splits)
  show ?thesis
    unfolding birthdays_def birthdays_body_def loop_eq ..
qed

theorem birthdays_excludes_birthday_before_today_witness:
  "birthday \<lparr>name = Name (ustr ''Ann''), phones = [],
      birthday = Some (Birthday \<lparr>year = 1990, month = 1, day = 2, hour = 0, minute = 0,
                                 second = 0, microsecond = 0\<rparr>)\<rparr> =
     Some (Birthday \<lparr>year = 1990, month = 1, day = 2, hour = 0, minute = 0, second = 0,
                      microsecond = 0\<rparr>) \<and>
   replace_year \<lparr>year = 1990, month = 1, day = 2, hour = 0, minute = 0, second = 0,
                  microsecond = 0\<rparr> 2024 =
     Inr \<lparr>year = 2024, month = 1, day = 2, hour = 0, minute = 0, second = 0,
          microsecond = 0\<rparr> \<and>
   dt_lt \<lparr>year = 2024, month = 1, day = 2, hour = 0, minute = 0, second = 0, microsecond = 0\<rparr>
         \<lparr>year = 2024, month = 12, day = 29, hour = 0, minute = 0, second = 0,
            microsecond = 0\<rparr> \<and>
   birthdays []
     \<lparr>year = 2024, month = 12, day = 29, hour = 0, minute = 0, second = 0, microsecond = 0\<rparr>
     [((ustr ''Ann''), \<lparr>name = Name (ustr ''Ann''), phones = [],
         birthday = Some (Birthday \<lparr>year = 1990, month = 1, day = 2, hour = 0, minute = 0,
                                    second = 0, microsecond = 0\<rparr>)\<rparr>)] =
     No_upcoming_birthdays"
proof -
  let ?b = "\<lparr>year = 1990, month = 1, day = 2, hour = 0, minute = 0, second = 0,
              microsecond = 0\<rparr>"
  let ?bty = "\<lparr>year = 2024, month = 1, day = 2, hour = 0, minute = 0, second = 0,
                microsecond = 0\<rparr>"
  let ?today = "\<lparr>year = 2024, month = 12, day = 29, hour = 0, minute = 0, second = 0,
                  microsecond = 0\<rparr>"
  let ?r = "\<lparr>name = Name (ustr ''Ann''), phones = [], birthday = Some (Birthday ?b)\<rparr>"
  have h1: "birthday ?r = Some (Birthday ?b)" by simp
  have h2: "replace_year (birthday_value (Birthday ?b)) (year ?today) = Inr ?bty"
    by code_simp
  have h3: "dt_lt ?bty ?today" by code_simp
  have e: "birthdays [] ?today [] = No_upcoming_birthdays" by code_simp
  show ?thesis
    using h1 h2 h3 e
      birthdays_excludes_birthday_before_today [OF h1 h2 h3, of "[]" "[]" "(ustr ''Ann'')" "[]"]
    by simp
qed

subsection \<open>The \<^verbatim>\<open>add\<close> handler\<close>

lemma dict_set_absent: "dict_get kvs k = None \<Longrightarrow> dict_set kvs k v = kvs @ [(k, v)]"
  by (induction kvs k v rule: dict_set.induct) (auto split: if_splits)

text \<open>
  Claim C10 says that \<^verbatim>\<open>add <name> <phone>\<close> with a new name and a phone that is not ten
  decimal digits reports the validation error and leaves a record with no phones. The
  ten superscript twos are not decimal digits, yet \<^verbatim>\<open>Phone\<close> accepts them: the handler
  replies "contact added" and the record holds that phone. With the empty string as the
  phone, \<^verbatim>\<open>if phone:\<close> skips \<^verbatim>\<open>add_phone\<close> and the reply is "contact added" too.
\<close>

theorem add_contact_accepted_or_empty_phone_counterexample:
  "add_contact [(ustr ''Bob''), replicate 10 0xB2] [] =
     (Contact_added,
      [((ustr ''Bob''), \<lparr>name = Name (ustr ''Bob''), phones = [Phone (replicate 10 0xB2)],
                   birthday = None\<rparr>)]) \<and>
   (0xB2 :: int) \<in> set (replicate 10 0xB2) \<and> (0xB2 :: int) \<notin> set (ustr ''0123456789'') \<and>
   add_contact [(ustr ''Bob''), (ustr '''')] [] =
     (Contact_added, [((ustr ''Bob''), \<lparr>name = Name (ustr ''Bob''), phones = [], birthday = None\<rparr>)])"
  by code_simp

text \<open>
  Claim C10, amended: for every book that does not hold the name and every non-empty
  phone string that \<^verbatim>\<open>Phone\<close> rejects (its length is not 10, or a character is not a digit
  in the sense of \<^verbatim>\<open>str.isdigit\<close>), the handler returns the text for \<^verbatim>\<open>ValueError\<close> and
  the book holds, after the entries it had, a new record under that name with no phones
  and no birthday: the insertion is not undone.
\<close>

theorem add_contact_keeps_record_when_phone_rejected:
  assumes "find_record contacts n = None"
    and "phone \<noteq> []"
    and "length phone \<noteq> 10 \<or> \<not> list_all isdigit_char phone"
  shows "add_contact (n # phone # rest) contacts =
           (Give_name_and_phone,
            contacts @ [(n, \<lparr>name = Name n, phones = [], birthday = None\<rparr>)]) \<and>
         find_record (snd (add_contact (n # phone # rest) contacts)) n =
           Some \<lparr>name = Name n, phones = [], birthday = None\<rparr>"
proof -
  have rej: "Phone_init phone = Inl ValueError"
    using assms(3) by (auto simp: Phone_init_def isdigit_def)
  have app: "add_record contacts (Record_init n) =
      contacts @ [(n, \<lparr>name = Name n, phones = [], birthday = None\<rparr>)]"
    using assms(1) by (simp add: add_record_def Record_init_def find_record_def dict_set_absent)
  have "add_contact (n # phone # rest) contacts =
      (Give_name_and_phone, add_record contacts (Record_init n))"
    using assms(1,2) rej by (simp add: add_contact_def add_phone_def input_error_def)
  then have res: "add_contact (n # phone # rest) contacts =
      (Give_name_and_phone,
       contacts @ [(n, \<lparr>name = Name n, phones = [], birthday = None\<rparr>)])"
    using app by simp
  have "find_record (add_record contacts (Record_init n)) n = Some (Record_init n)"
    by (simp add: add_record_def find_record_def Record_init_def dict_get_dict_set)
  then show ?thesis
    using res app by (simp add: Record_init_def)
qed

theorem add_contact_keeps_record_when_phone_rejected_witness:
  "find_record [((ustr ''Ann''), Record_init (ustr ''Ann''))] (ustr ''Bob'') = None \<and> (ustr ''12345'') \<noteq> [] \<and>
   length (ustr ''12345'') \<noteq> 10 \<and>
   add_contact [(ustr ''Bob''), (ustr ''12345'')] [((ustr ''Ann''), Record_init (ustr ''Ann''))] =
     (Give_name_and_phone,
      [((ustr ''Ann''), Record_init (ustr ''Ann'')),
       ((ustr ''Bob''), \<lparr>name = Name (ustr ''Bob''), phones = [], birthday = None\<rparr>)])"
proof -
  have h1: "find_record [((ustr ''Ann''), Record_init (ustr ''Ann''))] (ustr ''Bob'') = None"
    by (simp add: find_record_def)
  have h2: "(ustr ''12345'') \<noteq> []" by simp
  have h3: "length (ustr ''12345'') \<noteq> 10 \<or> \<not> list_all isdigit_char (ustr ''12345'')" by simp
  show ?thesis
    using h1 h2 add_contact_keeps_record_when_phone_rejected [OF h1 h2 h3, of "[]"]
    by simp
qed

end
